theory Spec2Isabelle
  imports
    Main
    "HOL-Library.Char_ord"
    "HOL-Library.List_Lexorder"
    "HOL-Library.Product_Lexorder"
begin

section \<open>Data model (types.ts)\<close>

text \<open>
  Every persisted entity carries the identifier of its document.  The TypeScript field
  \<^verbatim>\<open>id\<close> is written \<open>id'\<close>, since \<open>id\<close> is the identity function of HOL.  A server
  \<^verbatim>\<open>Timestamp\<close> is a natural number.  \<^verbatim>\<open>string | null\<close> is \<open>string option\<close>, and so is an
  optional parameter \<^verbatim>\<open>x?: string\<close>.  The like set \<^verbatim>\<open>Record<string, boolean>\<close> is a map from
  identities to booleans; it is optional in a stored document because the code reads it
  as \<^verbatim>\<open>data().likes || {}\<close>, and so is \<^verbatim>\<open>completed\<close>, read as \<^verbatim>\<open>data().completed || false\<close>.
\<close>

record doc =
  id' :: string

record message = doc +
  senderId :: string
  content :: "string option"
  imageUrl :: "string option"
  timestamp :: nat
  replyTo :: "string option"
  likes :: "(string \<rightharpoonup> bool) option"

record message_with_reply = message +
  replyToMessage :: "message option"

datatype visibility = Public | Private

datatype list_type = Collection | Checklist

record list_doc = doc +
  name :: string
  ownerId :: string
  visibility :: visibility
  type :: list_type
  createdAt :: nat
  emoji :: string

record list_item = doc +
  listId :: string
  messageId :: string
  addedAt :: nat
  completed :: "bool option"

record list_item_with_message = list_item +
  message :: "message option"

record drawing_data =
  dataUrl :: string
  width :: int
  height :: int

text \<open>\<^verbatim>\<open>Partial<Pick<List, 'name' | 'visibility' | 'type' | 'emoji'>>\<close>\<close>

record list_updates =
  new_name :: "string option"
  new_visibility :: "visibility option"
  new_type :: "list_type option"
  new_emoji :: "string option"

text \<open>Truthiness of a JavaScript value of type \<^verbatim>\<open>string | null | undefined\<close>: the empty
  string is falsy, like \<^verbatim>\<open>null\<close> and \<^verbatim>\<open>undefined\<close>.\<close>

definition truthy :: "string option \<Rightarrow> bool" where
  "truthy v = (case v of None \<Rightarrow> False | Some x \<Rightarrow> x \<noteq> [])"

text \<open>The spreads \<^verbatim>\<open>{ ...m, replyToMessage: r }\<close> and \<^verbatim>\<open>{ ...item, message: r }\<close>.\<close>

definition withReply :: "message \<Rightarrow> message option \<Rightarrow> message_with_reply" where
  "withReply m r = message.extend m (message_with_reply.fields r)"

definition withMessage :: "list_item \<Rightarrow> message option \<Rightarrow> list_item_with_message" where
  "withMessage it r = list_item.extend it (list_item_with_message.fields r)"

section \<open>The remote document store\<close>

definition MESSAGES_PER_PAGE :: nat where
  "MESSAGES_PER_PAGE = 50"

text \<open>useMessages.ts and useLists.ts each declare their own \<^verbatim>\<open>MESSAGES_COLLECTION\<close>, with
  different values.\<close>

definition MESSAGES_COLLECTION :: string where
  "MESSAGES_COLLECTION = ''duoboard_messages''"

definition LISTS_COLLECTION :: string where
  "LISTS_COLLECTION = ''lists''"

definition LIST_ITEMS_COLLECTION :: string where
  "LIST_ITEMS_COLLECTION = ''listItems''"

definition MESSAGES_COLLECTION_lists :: string where
  "MESSAGES_COLLECTION_lists = ''messages''"

text \<open>The requests the hooks send to Firestore, to Firebase Storage and to \<^verbatim>\<open>fetch\<close>.\<close>

datatype constraint =
    WhereEq string string
  | OrderByDesc string
  | StartAfter string
  | Limit nat

datatype store_op =
    GetDoc string string
  | GetDocs string "constraint list"
  | AddDoc string
  | UpdateDoc string string
  | DeleteDoc string string
  | Fetch string
  | UploadBytes string
  | GetDownloadURL string

text \<open>
  The store holds the four collections the hooks address and the uploaded drawings.
  \<open>oplog\<close> records every request in the order of issue.  The environment is a part of the
  store: \<open>rejects k op\<close> says that the request \<open>op\<close>, issued as the \<open>k\<close>-th one, is
  rejected (the promise rejects); \<open>newId k\<close> is the identifier the store assigns to a
  document inserted by the \<open>k\<close>-th request; \<open>clock\<close> is the server time, \<open>now\<close> the
  client's \<^verbatim>\<open>Date.now()\<close>, \<open>downloadURL\<close> the public reference of a storage path.
\<close>

record store =
  duoboard_messages :: "message list"
  messages_coll :: "message list"
  lists_coll :: "list_doc list"
  listItems_coll :: "list_item list"
  drawings :: "(string \<times> string) list"
  oplog :: "store_op list"
  clock :: nat
  now :: nat
  rejects :: "nat \<Rightarrow> store_op \<Rightarrow> bool"
  newId :: "nat \<Rightarrow> string"
  downloadURL :: "string \<Rightarrow> string"

datatype error = Rejected | Error string

text \<open>Issue one request: log it and tell whether the store accepts it.\<close>

definition request :: "store_op \<Rightarrow> store \<Rightarrow> bool \<times> store" where
  "request op s = (\<not> rejects s (length (oplog s)) op, s\<lparr>oplog := oplog s @ [op]\<rparr>)"

text \<open>\<^verbatim>\<open>Promise.all\<close>: every promise has been created, so every request has been issued;
  the result is the list of values, or the first rejection.\<close>

fun promise_all :: "(error + 'a) list \<Rightarrow> error + 'a list" where
  "promise_all [] = Inr []"
| "promise_all (Inl e # rs) = Inl e"
| "promise_all (Inr v # rs) = (case promise_all rs of Inl e \<Rightarrow> Inl e | Inr vs \<Rightarrow> Inr (v # vs))"

text \<open>\<^verbatim>\<open>[...new Set(xs)]\<close>: the distinct elements in the order of their first occurrence.\<close>

definition unique :: "'a list \<Rightarrow> 'a list" where
  "unique xs = rev (remdups (rev xs))"

text \<open>\<^verbatim>\<open>getDoc(doc(db, MESSAGES_COLLECTION, i))\<close> of useMessages.ts: the snapshot exists iff
  the collection holds a document with that identifier.\<close>

definition getDoc_message :: "string \<Rightarrow> store \<Rightarrow> (error + message option) \<times> store" where
  "getDoc_message i s =
     (let (ok, s1) = request (GetDoc MESSAGES_COLLECTION i) s
      in (if ok then Inr (find (\<lambda>m. id' m = i) (duoboard_messages s1)) else Inl Rejected, s1))"

fun getDoc_messages :: "string list \<Rightarrow> store \<Rightarrow> (error + message option) list \<times> store" where
  "getDoc_messages [] s = ([], s)"
| "getDoc_messages (i # ids) s =
     (let (r, s1) = getDoc_message i s; (rs, s2) = getDoc_messages ids s1 in (r # rs, s2))"

text \<open>\<^verbatim>\<open>addDoc\<close>: the store assigns the identifier and the server timestamp.\<close>

definition addDoc_message :: "message \<Rightarrow> store \<Rightarrow> (error + string) \<times> store" where
  "addDoc_message m s =
     (let (ok, s1) = request (AddDoc MESSAGES_COLLECTION) s;
          i = newId s (length (oplog s))
      in if ok
         then (Inr i, s1\<lparr>duoboard_messages := duoboard_messages s1 @ [m\<lparr>id' := i, timestamp := clock s1\<rparr>],
                         clock := Suc (clock s1)\<rparr>)
         else (Inl Rejected, s1))"

text \<open>\<^verbatim>\<open>updateDoc(messageRef, { likes: newLikes })\<close>: a field-level patch, rejected when the
  document does not exist.\<close>

definition updateDoc_likes :: "string \<Rightarrow> (string \<rightharpoonup> bool) \<Rightarrow> store \<Rightarrow> (error + unit) \<times> store" where
  "updateDoc_likes i l s =
     (let (ok, s1) = request (UpdateDoc MESSAGES_COLLECTION i) s
      in if ok \<and> i \<in> set (map id' (duoboard_messages s1))
         then (Inr (), s1\<lparr>duoboard_messages :=
                 map (\<lambda>m. if id' m = i then m\<lparr>likes := Some l\<rparr> else m) (duoboard_messages s1)\<rparr>)
         else (Inl Rejected, s1))"

section \<open>The message feed (useMessages.ts)\<close>

text \<open>The state of the hook: the five \<^verbatim>\<open>useState\<close> cells and the two \<^verbatim>\<open>useRef\<close> cells.\<close>

record feed =
  messages :: "message_with_reply list"
  loading :: bool
  loadingMore :: bool
  hasMore :: bool
  error :: "string option"
  lastDocRef :: "message option"
  initialLoadRef :: "nat option"

text \<open>The state of a freshly mounted hook.\<close>

definition useMessages_init :: feed where
  "useMessages_init = \<lparr>messages = [], loading = True, loadingMore = False, hasMore = True,
     error = None, lastDocRef = None, initialLoadRef = None\<rparr>"

text \<open>\<^verbatim>\<open>replyMap\<close>: filled by \<^verbatim>\<open>replyDocs.forEach\<close>, one entry per snapshot that exists.\<close>

definition replyMap_of :: "message option list \<Rightarrow> (string \<rightharpoonup> message)" where
  "replyMap_of docs =
     foldl (\<lambda>mp d. case d of None \<Rightarrow> mp | Some m \<Rightarrow> mp(id' m \<mapsto> m)) Map.empty docs"

definition replyIds_of :: "message list \<Rightarrow> string list" where
  "replyIds_of msgs = map (\<lambda>m. the (replyTo m)) (filter (\<lambda>m. truthy (replyTo m)) msgs)"

definition fetchReplyMessages ::
  "message list \<Rightarrow> store \<Rightarrow> (error + message_with_reply list) \<times> store" where
  "fetchReplyMessages msgs s =
     (let replyIds = replyIds_of msgs
      in if length replyIds = 0 then (Inr (map (\<lambda>m. withReply m None) msgs), s)
         else
           let uniqueReplyIds = unique replyIds;
               (rs, s1) = getDoc_messages uniqueReplyIds s
           in (case promise_all rs of
                 Inl e \<Rightarrow> (Inl e, s1)
               | Inr replyDocs \<Rightarrow>
                   let replyMap = replyMap_of replyDocs
                   in (Inr (map (\<lambda>m. withReply m
                                  (if truthy (replyTo m) then replyMap (the (replyTo m)) else None))
                              msgs), s1)))"

text \<open>The \<^verbatim>\<open>useEffect\<close> that opens the subscription, up to the call of \<^verbatim>\<open>onSnapshot\<close>.\<close>

definition subscribe :: "string option \<Rightarrow> feed \<Rightarrow> feed" where
  "subscribe userId f =
     (if \<not> truthy userId then f\<lparr>loading := False\<rparr>
      else f\<lparr>loading := True, error := None\<rparr>)"

text \<open>The \<^verbatim>\<open>next\<close> callback of \<^verbatim>\<open>onSnapshot\<close>: \<open>snapshot\<close> is the delivered result set in the
  order of the query, newest first.\<close>

definition onSnapshot_next :: "message list \<Rightarrow> store \<times> feed \<Rightarrow> store \<times> feed" where
  "onSnapshot_next snapshot sf =
     (let (s, f) = sf;
          newMessages = snapshot;
          lastDoc = (if snapshot = [] then None else Some (last snapshot));
          f1 = (if length newMessages > 0 \<and> initialLoadRef f = None
                then f\<lparr>initialLoadRef := Some (timestamp (hd newMessages))\<rparr> else f);
          f2 = f1\<lparr>lastDocRef := lastDoc\<rparr>;
          f3 = f2\<lparr>hasMore := (length newMessages = MESSAGES_PER_PAGE)\<rparr>
      in case fetchReplyMessages newMessages s of
           (Inr messagesWithReplies, s1) \<Rightarrow>
             (s1, f3\<lparr>messages := rev messagesWithReplies, loading := False\<rparr>)
         | (Inl e, s1) \<Rightarrow>
             (s1, f3\<lparr>error := Some ''Failed to load messages'', loading := False\<rparr>))"

text \<open>The \<^verbatim>\<open>error\<close> callback of \<^verbatim>\<open>onSnapshot\<close>.\<close>

definition onSnapshot_error :: "feed \<Rightarrow> feed" where
  "onSnapshot_error f = f\<lparr>error := Some ''Failed to connect to messages'', loading := False\<rparr>"

text \<open>The result set of \<^verbatim>\<open>orderBy('timestamp', 'desc'), startAfter(cursor), limit(50)\<close>.
  Firestore breaks ties of the ordering field by document identifier.\<close>

definition orderKey :: "message \<Rightarrow> nat \<times> string" where
  "orderKey m = (timestamp m, id' m)"

definition olderQuery :: "message \<Rightarrow> store \<Rightarrow> message list" where
  "olderQuery cursor s =
     take MESSAGES_PER_PAGE
       (filter (\<lambda>m. orderKey m < orderKey cursor) (rev (sort_key orderKey (duoboard_messages s))))"

text \<open>
  \<^verbatim>\<open>loadMore\<close> is a \<^verbatim>\<open>useCallback\<close> closure: its guard reads \<^verbatim>\<open>userId\<close>, \<^verbatim>\<open>loadingMore\<close> and
  \<^verbatim>\<open>hasMore\<close> as the render that created the callback saw them (the parameters \<open>userId\<close>,
  \<open>loadingMore_c\<close> and \<open>hasMore_c\<close>), while \<^verbatim>\<open>lastDocRef.current\<close> and the state setters act on
  the live state.  The function is asynchronous and is suspended at its two \<^verbatim>\<open>await\<close>s, so
  it is three steps, between which other calls can run.

  \<open>loadMore_begin\<close>: up to \<^verbatim>\<open>await getDocs(olderQuery)\<close>.  The result is the state and,
  when the guard let the call pass, the outcome with which the query will settle.
\<close>

definition loadMore_begin ::
  "string option \<Rightarrow> bool \<Rightarrow> bool \<Rightarrow> store \<times> feed
     \<Rightarrow> (store \<times> feed) \<times> (error + message list) option" where
  "loadMore_begin userId loadingMore_c hasMore_c sf =
     (let (s, f) = sf
      in if \<not> truthy userId \<or> loadingMore_c \<or> \<not> hasMore_c \<or> lastDocRef f = None
         then ((s, f), None)
         else
           let f1 = f\<lparr>loadingMore := True\<rparr>;
               cursor = the (lastDocRef f1);
               (ok, s1) = request (GetDocs MESSAGES_COLLECTION
                            [OrderByDesc ''timestamp'', StartAfter (id' cursor),
                             Limit MESSAGES_PER_PAGE]) s
           in ((s1, f1), Some (if ok then Inr (olderQuery cursor s1) else Inl Rejected)))"

text \<open>\<open>loadMore_page\<close>: from the settling of the query up to
  \<^verbatim>\<open>await fetchReplyMessages(olderMessages)\<close>, or to the end when the query was rejected or
  the page is empty.\<close>

definition loadMore_page ::
  "error + message list \<Rightarrow> store \<times> feed
     \<Rightarrow> (store \<times> feed) \<times> (error + message_with_reply list) option" where
  "loadMore_page snapshot sf =
     (let (s, f) = sf
      in case snapshot of
           Inl e \<Rightarrow>
             ((s, f\<lparr>error := Some ''Failed to load more messages'', loadingMore := False\<rparr>), None)
         | Inr olderMessages \<Rightarrow>
             let f2 = (if olderMessages = [] then f
                       else f\<lparr>lastDocRef := Some (last olderMessages)\<rparr>);
                 f3 = f2\<lparr>hasMore := (length olderMessages = MESSAGES_PER_PAGE)\<rparr>
             in if length olderMessages > 0
                then (case fetchReplyMessages olderMessages s of
                        (r, s2) \<Rightarrow> ((s2, f3), Some r))
                else ((s, f3\<lparr>loadingMore := False\<rparr>), None))"

text \<open>\<open>loadMore_finish\<close>: from the settling of the reply resolution to the end.\<close>

definition loadMore_finish ::
  "error + message_with_reply list \<Rightarrow> store \<times> feed \<Rightarrow> store \<times> feed" where
  "loadMore_finish r sf =
     (let (s, f) = sf
      in case r of
           Inr olderWithReplies \<Rightarrow>
             (s, f\<lparr>messages := rev olderWithReplies @ messages f, loadingMore := False\<rparr>)
         | Inl e \<Rightarrow>
             (s, f\<lparr>error := Some ''Failed to load more messages'', loadingMore := False\<rparr>))"

text \<open>\<open>loadMore_resume\<close>: a suspended call runs from the settling of its query to its
  end.\<close>

definition loadMore_resume ::
  "(error + message list) option \<Rightarrow> store \<times> feed \<Rightarrow> store \<times> feed" where
  "loadMore_resume p sf =
     (case p of
        None \<Rightarrow> sf
      | Some snapshot \<Rightarrow>
          (case loadMore_page snapshot sf of
             (sf2, None) \<Rightarrow> sf2
           | (sf2, Some r) \<Rightarrow> loadMore_finish r sf2))"

text \<open>A call that runs to its end with nothing in between, as \<^verbatim>\<open>await loadMore()\<close> does
  when no other event arrives.\<close>

definition loadMore :: "string option \<Rightarrow> bool \<Rightarrow> bool \<Rightarrow> store \<times> feed \<Rightarrow> store \<times> feed" where
  "loadMore userId loadingMore_c hasMore_c sf =
     (case loadMore_begin userId loadingMore_c hasMore_c sf of (sf1, p) \<Rightarrow> loadMore_resume p sf1)"

text \<open>Two calls of the same callback, the second made while the first is suspended at
  its query; the first then runs to its end, and then the second.\<close>

definition loadMore_twice ::
  "string option \<Rightarrow> bool \<Rightarrow> bool \<Rightarrow> store \<times> feed \<Rightarrow> store \<times> feed" where
  "loadMore_twice userId loadingMore_c hasMore_c sf =
     (case loadMore_begin userId loadingMore_c hasMore_c sf of
        (sf1, p1) \<Rightarrow>
          (case loadMore_begin userId loadingMore_c hasMore_c sf1 of
             (sf2, p2) \<Rightarrow> loadMore_resume p2 (loadMore_resume p1 sf2)))"

text \<open>
  \<^verbatim>\<open>String.prototype.trim\<close> removes white space and line terminators from both ends: the
  code points U+0009 to U+000D, U+0020, U+00A0, U+1680, U+2000 to U+200A, U+2028, U+2029,
  U+202F, U+205F, U+3000 and U+FEFF.  A \<open>string\<close> holds the text in UTF-8, so each of them
  is the sequence of its bytes.
\<close>

definition WhiteSpace :: "string list" where
  "WhiteSpace =
     [[CHR 0x09], [CHR 0x0A], [CHR 0x0B], [CHR 0x0C], [CHR 0x0D], [CHR 0x20],
      [CHR 0xC2, CHR 0xA0],
      [CHR 0xE1, CHR 0x9A, CHR 0x80],
      [CHR 0xE2, CHR 0x80, CHR 0x80], [CHR 0xE2, CHR 0x80, CHR 0x81],
      [CHR 0xE2, CHR 0x80, CHR 0x82], [CHR 0xE2, CHR 0x80, CHR 0x83],
      [CHR 0xE2, CHR 0x80, CHR 0x84], [CHR 0xE2, CHR 0x80, CHR 0x85],
      [CHR 0xE2, CHR 0x80, CHR 0x86], [CHR 0xE2, CHR 0x80, CHR 0x87],
      [CHR 0xE2, CHR 0x80, CHR 0x88], [CHR 0xE2, CHR 0x80, CHR 0x89],
      [CHR 0xE2, CHR 0x80, CHR 0x8A],
      [CHR 0xE2, CHR 0x80, CHR 0xA8], [CHR 0xE2, CHR 0x80, CHR 0xA9],
      [CHR 0xE2, CHR 0x80, CHR 0xAF],
      [CHR 0xE2, CHR 0x81, CHR 0x9F],
      [CHR 0xE3, CHR 0x80, CHR 0x80],
      [CHR 0xEF, CHR 0xBB, CHR 0xBF]]"

text \<open>The number of bytes of the white-space character a text starts with (ends with),
  0 when it starts (ends) with none.\<close>

definition leading_space :: "string \<Rightarrow> nat" where
  "leading_space x =
     (case find (\<lambda>w. take (length w) x = w) WhiteSpace of None \<Rightarrow> 0 | Some w \<Rightarrow> length w)"

definition trailing_space :: "string \<Rightarrow> nat" where
  "trailing_space x =
     (case find (\<lambda>w. length w \<le> length x \<and> drop (length x - length w) x = w) WhiteSpace of
        None \<Rightarrow> 0 | Some w \<Rightarrow> length w)"

function trimStart :: "string \<Rightarrow> string" where
  "trimStart x = (if leading_space x = 0 then x else trimStart (drop (leading_space x) x))"
  by pat_completeness auto
termination
proof (relation "measure length")
  show "wf (measure length)" by simp
next
  fix x :: string
  assume n: "leading_space x \<noteq> 0"
  have "leading_space [] = 0"
    by (simp add: leading_space_def WhiteSpace_def)
  with n have "x \<noteq> []" by auto
  with n show "(drop (leading_space x) x, x) \<in> measure length" by simp
qed

function trimEnd :: "string \<Rightarrow> string" where
  "trimEnd x =
     (if trailing_space x = 0 then x else trimEnd (take (length x - trailing_space x) x))"
  by pat_completeness auto
termination
proof (relation "measure length")
  show "wf (measure length)" by simp
next
  fix x :: string
  assume n: "trailing_space x \<noteq> 0"
  have "trailing_space [] = 0"
    by (simp add: trailing_space_def WhiteSpace_def)
  with n have "x \<noteq> []" by auto
  with n show "(take (length x - trailing_space x) x, x) \<in> measure length" by simp
qed

declare trimStart.simps [simp del]

declare trimEnd.simps [simp del]

definition trim :: "string \<Rightarrow> string" where
  "trim x = trimEnd (trimStart x)"

definition sendMessage ::
  "string option \<Rightarrow> string \<Rightarrow> string option \<Rightarrow> store \<Rightarrow> (error + unit) \<times> store" where
  "sendMessage userId text replyTo_arg s =
     (if \<not> truthy userId \<or> trim text = [] then (Inr (), s)
      else
        let messageData = \<lparr>id' = [], senderId = the userId, content = Some (trim text),
              imageUrl = None, timestamp = 0,
              replyTo = (if truthy replyTo_arg then replyTo_arg else None),
              likes = Some Map.empty\<rparr>
        in case addDoc_message messageData s of
             (Inr i, s1) \<Rightarrow> (Inr (), s1)
           | (Inl e, s1) \<Rightarrow> (Inl (Error ''Failed to send message''), s1))"

text \<open>Decimal digits of \<^verbatim>\<open>Date.now()\<close> inside the file name of a drawing.\<close>

function show_nat :: "nat \<Rightarrow> string" where
  "show_nat n =
     (if n < 10 then [char_of (48 + n)] else show_nat (n div 10) @ [char_of (48 + n mod 10)])"
  by pat_completeness auto
termination
  by (relation "measure (\<lambda>n. n)") auto

declare show_nat.simps [simp del]

text \<open>The blob fetched from a data URL is represented by the URL itself.  The upload
  must be accepted before the message is inserted.\<close>

definition sendDrawing ::
  "string option \<Rightarrow> drawing_data \<Rightarrow> string option \<Rightarrow> store \<Rightarrow> (error + unit) \<times> store" where
  "sendDrawing userId drawing replyTo_arg s =
     (if \<not> truthy userId then (Inr (), s)
      else
        let failed = Inl (Error ''Failed to send drawing'');
            (ok1, s1) = request (Fetch (dataUrl drawing)) s
        in if \<not> ok1 then (failed, s1)
           else
             let blob = dataUrl drawing;
                 fileName = ''duoboard_drawings/'' @ the userId @ ''_'' @ show_nat (now s1) @ ''.png'';
                 (ok2, s2) = request (UploadBytes fileName) s1
             in if \<not> ok2 then (failed, s2)
                else
                  let s3 = s2\<lparr>drawings := (fileName, blob) # filter (\<lambda>d. fst d \<noteq> fileName) (drawings s2)\<rparr>;
                      (ok3, s4) = request (GetDownloadURL fileName) s3
                  in if \<not> ok3 then (failed, s4)
                     else
                       let messageData = \<lparr>id' = [], senderId = the userId, content = None,
                             imageUrl = Some (downloadURL s4 fileName), timestamp = 0,
                             replyTo = (if truthy replyTo_arg then replyTo_arg else None),
                             likes = Some Map.empty\<rparr>
                       in case addDoc_message messageData s4 of
                            (Inr i, s5) \<Rightarrow> (Inr (), s5)
                          | (Inl e, s5) \<Rightarrow> (failed, s5))"

text \<open>\<^verbatim>\<open>toggleLike\<close> catches every failure and only logs it: the promise it returns never
  rejects, so the result is always \<open>Inr ()\<close>.\<close>

text \<open>
  \<^verbatim>\<open>newLikes\<close> is a plain object, so \<^verbatim>\<open>newLikes[userId]\<close> is the own entry when there is one
  and otherwise the property of that name inherited from \<^verbatim>\<open>Object.prototype\<close>; each of
  those is a function or an object, hence truthy.  \<^verbatim>\<open>delete\<close> removes an own entry only.
\<close>

definition Object_prototype :: "string list" where
  "Object_prototype =
     [''constructor'', ''__defineGetter__'', ''__defineSetter__'', ''hasOwnProperty'',
      ''__lookupGetter__'', ''__lookupSetter__'', ''isPrototypeOf'', ''propertyIsEnumerable'',
      ''toString'', ''valueOf'', ''__proto__'', ''toLocaleString'']"

definition likedBy :: "(string \<rightharpoonup> bool) \<Rightarrow> string \<Rightarrow> bool" where
  "likedBy newLikes u =
     (case newLikes u of Some b \<Rightarrow> b | None \<Rightarrow> u \<in> set Object_prototype)"

definition flipLike :: "string \<Rightarrow> (string \<rightharpoonup> bool) \<Rightarrow> (string \<rightharpoonup> bool)" where
  "flipLike u currentLikes =
     (if likedBy currentLikes u then currentLikes(u := None) else currentLikes(u \<mapsto> True))"

definition toggleLike ::
  "string option \<Rightarrow> string \<Rightarrow> store \<times> feed \<Rightarrow> (error + unit) \<times> store \<times> feed" where
  "toggleLike userId messageId_arg sf =
     (let (s, f) = sf
      in if \<not> truthy userId then (Inr (), s, f)
         else case getDoc_message messageId_arg s of
           (Inl e, s1) \<Rightarrow> (Inr (), s1, f)
         | (Inr None, s1) \<Rightarrow> (Inr (), s1, f)
         | (Inr (Some messageDoc), s1) \<Rightarrow>
             let currentLikes = (case likes messageDoc of None \<Rightarrow> Map.empty | Some l \<Rightarrow> l);
                 newLikes = flipLike (the userId) currentLikes
             in (case updateDoc_likes messageId_arg newLikes s1 of
                   (Inl e, s2) \<Rightarrow> (Inr (), s2, f)
                 | (Inr u, s2) \<Rightarrow>
                     (Inr (), s2,
                      f\<lparr>messages := map (\<lambda>m. if id' m = messageId_arg
                                               then m\<lparr>likes := Some newLikes\<rparr> else m)
                                         (messages f)\<rparr>)))"

text \<open>\<^verbatim>\<open>getMessageById\<close> searches the window its callback captured at its render.\<close>

definition getMessageById :: "message_with_reply list \<Rightarrow> string \<Rightarrow> message_with_reply option" where
  "getMessageById messages_c i = find (\<lambda>m. id' m = i) messages_c"

section \<open>Lists and list items (useLists.ts)\<close>

subsection \<open>Store requests on the collections of lists and items\<close>

definition addDoc_list :: "list_doc \<Rightarrow> store \<Rightarrow> (error + string) \<times> store" where
  "addDoc_list d s =
     (let (ok, s1) = request (AddDoc LISTS_COLLECTION) s;
          i = newId s (length (oplog s))
      in if ok
         then (Inr i, s1\<lparr>lists_coll := lists_coll s1 @ [d\<lparr>id' := i, createdAt := clock s1\<rparr>],
                         clock := Suc (clock s1)\<rparr>)
         else (Inl Rejected, s1))"

definition addDoc_item :: "list_item \<Rightarrow> store \<Rightarrow> (error + string) \<times> store" where
  "addDoc_item d s =
     (let (ok, s1) = request (AddDoc LIST_ITEMS_COLLECTION) s;
          i = newId s (length (oplog s))
      in if ok
         then (Inr i, s1\<lparr>listItems_coll := listItems_coll s1 @ [d\<lparr>id' := i, addedAt := clock s1\<rparr>],
                         clock := Suc (clock s1)\<rparr>)
         else (Inl Rejected, s1))"

definition patch_list :: "list_updates \<Rightarrow> list_doc \<Rightarrow> list_doc" where
  "patch_list u d =
     d\<lparr>name := (case new_name u of None \<Rightarrow> name d | Some x \<Rightarrow> x),
       visibility := (case new_visibility u of None \<Rightarrow> visibility d | Some x \<Rightarrow> x),
       type := (case new_type u of None \<Rightarrow> type d | Some x \<Rightarrow> x),
       emoji := (case new_emoji u of None \<Rightarrow> emoji d | Some x \<Rightarrow> x)\<rparr>"

definition updateDoc_list :: "string \<Rightarrow> list_updates \<Rightarrow> store \<Rightarrow> (error + unit) \<times> store" where
  "updateDoc_list i u s =
     (let (ok, s1) = request (UpdateDoc LISTS_COLLECTION i) s
      in if ok \<and> i \<in> set (map id' (lists_coll s1))
         then (Inr (), s1\<lparr>lists_coll :=
                 map (\<lambda>d. if id' d = i then patch_list u d else d) (lists_coll s1)\<rparr>)
         else (Inl Rejected, s1))"

definition updateDoc_completed :: "string \<Rightarrow> bool \<Rightarrow> store \<Rightarrow> (error + unit) \<times> store" where
  "updateDoc_completed i c s =
     (let (ok, s1) = request (UpdateDoc LIST_ITEMS_COLLECTION i) s
      in if ok \<and> i \<in> set (map id' (listItems_coll s1))
         then (Inr (), s1\<lparr>listItems_coll :=
                 map (\<lambda>d. if id' d = i then d\<lparr>completed := Some c\<rparr> else d) (listItems_coll s1)\<rparr>)
         else (Inl Rejected, s1))"

text \<open>\<^verbatim>\<open>deleteDoc\<close> succeeds whether or not the document exists.\<close>

definition deleteDoc_item :: "string \<Rightarrow> store \<Rightarrow> (error + unit) \<times> store" where
  "deleteDoc_item i s =
     (let (ok, s1) = request (DeleteDoc LIST_ITEMS_COLLECTION i) s
      in if ok
         then (Inr (), s1\<lparr>listItems_coll := filter (\<lambda>d. id' d \<noteq> i) (listItems_coll s1)\<rparr>)
         else (Inl Rejected, s1))"

fun deleteDoc_items :: "string list \<Rightarrow> store \<Rightarrow> (error + unit) list \<times> store" where
  "deleteDoc_items [] s = ([], s)"
| "deleteDoc_items (i # ids) s =
     (let (r, s1) = deleteDoc_item i s; (rs, s2) = deleteDoc_items ids s1 in (r # rs, s2))"

definition deleteDoc_list :: "string \<Rightarrow> store \<Rightarrow> (error + unit) \<times> store" where
  "deleteDoc_list i s =
     (let (ok, s1) = request (DeleteDoc LISTS_COLLECTION i) s
      in if ok
         then (Inr (), s1\<lparr>lists_coll := filter (\<lambda>d. id' d \<noteq> i) (lists_coll s1)\<rparr>)
         else (Inl Rejected, s1))"

definition getDoc_item :: "string \<Rightarrow> store \<Rightarrow> (error + list_item option) \<times> store" where
  "getDoc_item i s =
     (let (ok, s1) = request (GetDoc LIST_ITEMS_COLLECTION i) s
      in (if ok then Inr (find (\<lambda>d. id' d = i) (listItems_coll s1)) else Inl Rejected, s1))"

text \<open>The point read of useLists.ts addresses the collection \<^verbatim>\<open>'messages'\<close>.\<close>

definition getDoc_message_lists :: "string \<Rightarrow> store \<Rightarrow> (error + message option) \<times> store" where
  "getDoc_message_lists i s =
     (let (ok, s1) = request (GetDoc MESSAGES_COLLECTION_lists i) s
      in (if ok then Inr (find (\<lambda>m. id' m = i) (messages_coll s1)) else Inl Rejected, s1))"

fun getDoc_messages_lists ::
  "string list \<Rightarrow> store \<Rightarrow> (error + message option) list \<times> store" where
  "getDoc_messages_lists [] s = ([], s)"
| "getDoc_messages_lists (i # ids) s =
     (let (r, s1) = getDoc_message_lists i s; (rs, s2) = getDoc_messages_lists ids s1
      in (r # rs, s2))"

text \<open>The result sets of the three queries on \<^verbatim>\<open>listItems\<close>.\<close>

definition itemsOfList :: "string \<Rightarrow> store \<Rightarrow> list_item list" where
  "itemsOfList l s = filter (\<lambda>d. listId d = l) (listItems_coll s)"

definition itemsOfPair :: "string \<Rightarrow> string \<Rightarrow> store \<Rightarrow> list_item list" where
  "itemsOfPair l m s = filter (\<lambda>d. listId d = l \<and> messageId d = m) (listItems_coll s)"

definition itemsOfListByAddedAtDesc :: "string \<Rightarrow> store \<Rightarrow> list_item list" where
  "itemsOfListByAddedAtDesc l s = rev (sort_key (\<lambda>d. (addedAt d, id' d)) (itemsOfList l s))"

subsection \<open>The operations of the hook\<close>

definition createList ::
  "string option \<Rightarrow> string \<Rightarrow> visibility \<Rightarrow> list_type \<Rightarrow> string option \<Rightarrow> store
     \<Rightarrow> (error + string option) \<times> store" where
  "createList userId name_arg visibility_arg type_arg emoji_arg s =
     (if \<not> truthy userId then (Inr None, s)
      else
        let listData = \<lparr>id' = [], name = name_arg, ownerId = the userId,
              visibility = visibility_arg, type = type_arg, createdAt = 0,
              emoji = (if truthy emoji_arg then the emoji_arg else [])\<rparr>
        in case addDoc_list listData s of
             (Inr i, s1) \<Rightarrow> (Inr (Some i), s1)
           | (Inl e, s1) \<Rightarrow> (Inl (Error ''Failed to create list''), s1))"

definition updateList ::
  "string option \<Rightarrow> string \<Rightarrow> list_updates \<Rightarrow> store \<Rightarrow> (error + unit) \<times> store" where
  "updateList userId l updates s =
     (if \<not> truthy userId then (Inr (), s)
      else case updateDoc_list l updates s of
             (Inr u, s1) \<Rightarrow> (Inr (), s1)
           | (Inl e, s1) \<Rightarrow> (Inl (Error ''Failed to update list''), s1))"

definition deleteList :: "string option \<Rightarrow> string \<Rightarrow> store \<Rightarrow> (error + unit) \<times> store" where
  "deleteList userId l s =
     (if \<not> truthy userId then (Inr (), s)
      else
        let failed = Inl (Error ''Failed to delete list'');
            (ok, s1) = request (GetDocs LIST_ITEMS_COLLECTION [WhereEq ''listId'' l]) s
        in if \<not> ok then (failed, s1)
           else
             let itemsSnapshot = itemsOfList l s1;
                 (deletePromises, s2) = deleteDoc_items (map id' itemsSnapshot) s1
             in (case promise_all deletePromises of
                   Inl e \<Rightarrow> (failed, s2)
                 | Inr us \<Rightarrow>
                     (case deleteDoc_list l s2 of
                        (Inr u, s3) \<Rightarrow> (Inr (), s3)
                      | (Inl e, s3) \<Rightarrow> (failed, s3))))"

definition addMessageToList ::
  "string option \<Rightarrow> string \<Rightarrow> string \<Rightarrow> store \<Rightarrow> (error + unit) \<times> store" where
  "addMessageToList userId l m s =
     (if \<not> truthy userId then (Inr (), s)
      else
        let failed = Inl (Error ''Failed to add to list'');
            (ok, s1) = request (GetDocs LIST_ITEMS_COLLECTION
                         [WhereEq ''listId'' l, WhereEq ''messageId'' m]) s
        in if \<not> ok then (failed, s1)
           else
             let existing = itemsOfPair l m s1
             in if existing \<noteq> [] then (Inr (), s1)
                else
                  let itemData = \<lparr>id' = [], listId = l, messageId = m, addedAt = 0,
                        completed = Some False\<rparr>
                  in (case addDoc_item itemData s1 of
                        (Inr i, s2) \<Rightarrow> (Inr (), s2)
                      | (Inl e, s2) \<Rightarrow> (failed, s2)))"

definition removeFromList ::
  "string option \<Rightarrow> string \<Rightarrow> string \<Rightarrow> store \<Rightarrow> (error + unit) \<times> store" where
  "removeFromList userId l m s =
     (if \<not> truthy userId then (Inr (), s)
      else
        let failed = Inl (Error ''Failed to remove from list'');
            (ok, s1) = request (GetDocs LIST_ITEMS_COLLECTION
                         [WhereEq ''listId'' l, WhereEq ''messageId'' m]) s
        in if \<not> ok then (failed, s1)
           else
             let snapshot = itemsOfPair l m s1;
                 (deletePromises, s2) = deleteDoc_items (map id' snapshot) s1
             in (case promise_all deletePromises of
                   Inl e \<Rightarrow> (failed, s2)
                 | Inr us \<Rightarrow> (Inr (), s2)))"

definition toggleItemCompleted ::
  "string option \<Rightarrow> string \<Rightarrow> store \<Rightarrow> (error + unit) \<times> store" where
  "toggleItemCompleted userId itemId s =
     (if \<not> truthy userId then (Inr (), s)
      else
        let failed = Inl (Error ''Failed to update item'')
        in case getDoc_item itemId s of
             (Inl e, s1) \<Rightarrow> (failed, s1)
           | (Inr None, s1) \<Rightarrow> (Inr (), s1)
           | (Inr (Some itemSnap), s1) \<Rightarrow>
               let currentCompleted = (case completed itemSnap of None \<Rightarrow> False | Some c \<Rightarrow> c)
               in (case updateDoc_completed itemId (\<not> currentCompleted) s1 of
                     (Inr u, s2) \<Rightarrow> (Inr (), s2)
                   | (Inl e, s2) \<Rightarrow> (failed, s2)))"

definition messageMap_of :: "message option list \<Rightarrow> (string \<rightharpoonup> message)" where
  "messageMap_of docs =
     foldl (\<lambda>mp d. case d of None \<Rightarrow> mp | Some m \<Rightarrow> mp(id' m \<mapsto> m)) Map.empty docs"

definition getListItems ::
  "string \<Rightarrow> store \<Rightarrow> (error + list_item_with_message list) \<times> store" where
  "getListItems l s =
     (let failed = Inl (Error ''Failed to load list items'');
          (ok, s1) = request (GetDocs LIST_ITEMS_COLLECTION
                       [WhereEq ''listId'' l, OrderByDesc ''addedAt'']) s
      in if \<not> ok then (failed, s1)
         else
           let items = itemsOfListByAddedAtDesc l s1;
               messageIds = map messageId items;
               (messagePromises, s2) = getDoc_messages_lists messageIds s1
           in (case promise_all messagePromises of
                 Inl e \<Rightarrow> (failed, s2)
               | Inr messageDocs \<Rightarrow>
                   let messageMap = messageMap_of messageDocs
                   in (Inr (map (\<lambda>item. withMessage item (messageMap (messageId item))) items),
                       s2)))"

section \<open>Vocabulary of the properties\<close>

text \<open>\<open>accepts s ops\<close>: the store accepts each of the requests \<open>ops\<close> when they are the next
  ones issued, in this order, starting from \<open>s\<close>.\<close>

fun accepts_from :: "(nat \<Rightarrow> store_op \<Rightarrow> bool) \<Rightarrow> nat \<Rightarrow> store_op list \<Rightarrow> bool" where
  "accepts_from rj k [] = True"
| "accepts_from rj k (op # ops) = (\<not> rj k op \<and> accepts_from rj (Suc k) ops)"

definition accepts :: "store \<Rightarrow> store_op list \<Rightarrow> bool" where
  "accepts s ops = accepts_from (rejects s) (length (oplog s)) ops"

text \<open>The document a point read of \<^verbatim>\<open>duoboard_messages\<close> (of \<^verbatim>\<open>messages\<close>, of \<^verbatim>\<open>listItems\<close>)
  finds.\<close>

definition lookup_message :: "string \<Rightarrow> store \<Rightarrow> message option" where
  "lookup_message i s = find (\<lambda>m. id' m = i) (duoboard_messages s)"

definition lookup_message_lists :: "string \<Rightarrow> store \<Rightarrow> message option" where
  "lookup_message_lists i s = find (\<lambda>m. id' m = i) (messages_coll s)"

definition lookup_item :: "string \<Rightarrow> store \<Rightarrow> list_item option" where
  "lookup_item i s = find (\<lambda>d. id' d = i) (listItems_coll s)"

text \<open>The like set of a message: the identities whose entry is truthy.\<close>

definition likeSet :: "message \<Rightarrow> string set" where
  "likeSet m = {u. (case likes m of None \<Rightarrow> Map.empty | Some l \<Rightarrow> l) u = Some True}"

text \<open>The reply a resolved batch attaches to a message.\<close>

definition resolved :: "store \<Rightarrow> message \<Rightarrow> message_with_reply" where
  "resolved s m =
     withReply m (if truthy (replyTo m) then lookup_message (the (replyTo m)) s else None)"

definition resolved_item :: "store \<Rightarrow> list_item \<Rightarrow> list_item_with_message" where
  "resolved_item s d = withMessage d (lookup_message_lists (messageId d) s)"

text \<open>The query \<^verbatim>\<open>loadMore\<close> issues for the page after the cursor \<open>c\<close>.\<close>

definition older_query :: "message \<Rightarrow> store_op" where
  "older_query c = GetDocs MESSAGES_COLLECTION
     [OrderByDesc ''timestamp'', StartAfter (id' c), Limit MESSAGES_PER_PAGE]"

text \<open>The query \<^verbatim>\<open>getListItems\<close> issues.\<close>

definition listItems_query :: "string \<Rightarrow> store_op" where
  "listItems_query l = GetDocs LIST_ITEMS_COLLECTION [WhereEq ''listId'' l, OrderByDesc ''addedAt'']"

text \<open>The query of \<^verbatim>\<open>deleteList\<close> and the deletions it issues for the items of a list.\<close>

definition items_query :: "string \<Rightarrow> store_op" where
  "items_query l = GetDocs LIST_ITEMS_COLLECTION [WhereEq ''listId'' l]"

definition item_deletes :: "string \<Rightarrow> store \<Rightarrow> store_op list" where
  "item_deletes l s = map (DeleteDoc LIST_ITEMS_COLLECTION) (map id' (itemsOfList l s))"

text \<open>\<^verbatim>\<open>messageDoc.data().likes || {}\<close>, and the window after the eager patch of a toggle
  by \<open>u\<close> whose read found \<open>m\<close>.\<close>

definition currentLikes :: "message \<Rightarrow> (string \<rightharpoonup> bool)" where
  "currentLikes m = (case likes m of None \<Rightarrow> Map.empty | Some l \<Rightarrow> l)"

definition liked ::
  "string \<Rightarrow> string \<Rightarrow> message_with_reply list \<Rightarrow> message \<Rightarrow> message_with_reply list" where
  "liked u i w m =
     map (\<lambda>x. if id' x = i then x\<lparr>likes := Some (flipLike u (currentLikes m))\<rparr> else x) w"

section \<open>Example data\<close>

definition ex_msg :: "string \<Rightarrow> nat \<Rightarrow> string option \<Rightarrow> message" where
  "ex_msg i t r = \<lparr>id' = i, senderId = ''alice'', content = Some ''hi'', imageUrl = None,
     timestamp = t, replyTo = r, likes = Some Map.empty\<rparr>"

definition ex_item :: "string \<Rightarrow> string \<Rightarrow> string \<Rightarrow> list_item" where
  "ex_item i l m = \<lparr>id' = i, listId = l, messageId = m, addedAt = 5, completed = Some False\<rparr>"

definition ex_list :: list_doc where
  "ex_list = \<lparr>id' = ''l1'', name = ''Groceries'', ownerId = ''alice'', visibility = Private,
     type = Checklist, createdAt = 4, emoji = []\<rparr>"

text \<open>A store that accepts every request, and one that rejects the point reads of
  \<^verbatim>\<open>m1\<close> and every update.\<close>

definition ex_store :: store where
  "ex_store = \<lparr>duoboard_messages = [ex_msg ''m1'' 1 None, ex_msg ''m2'' 2 (Some ''m1'')],
     messages_coll = [ex_msg ''m1'' 1 None],
     lists_coll = [ex_list],
     listItems_coll = [ex_item ''i1'' ''l1'' ''m1'', ex_item ''i2'' ''l1'' ''m2''],
     drawings = [], oplog = [], clock = 6, now = 1700,
     rejects = (\<lambda>k op. False),
     newId = (\<lambda>k. ''doc'' @ show_nat k),
     downloadURL = (\<lambda>p. ''https://storage/'' @ p)\<rparr>"

definition ex_store_failing :: store where
  "ex_store_failing = ex_store\<lparr>rejects := (\<lambda>k op. case op of
       GetDoc c i \<Rightarrow> i = ''m1''
     | UpdateDoc c i \<Rightarrow> True
     | _ \<Rightarrow> False)\<rparr>"

text \<open>A delivered batch, newest first: \<^verbatim>\<open>m2\<close> replies to \<^verbatim>\<open>m1\<close>; and a batch whose two
  messages reply to \<^verbatim>\<open>m2\<close> and to \<^verbatim>\<open>m1\<close>.\<close>

definition ex_batch :: "message list" where
  "ex_batch = [ex_msg ''m2'' 2 (Some ''m1''), ex_msg ''m1'' 1 None]"

definition ex_batch_replies :: "message list" where
  "ex_batch_replies = [ex_msg ''m4'' 4 (Some ''m2''), ex_msg ''m3'' 3 (Some ''m1'')]"

text \<open>A store that rejects the deletion of the item \<^verbatim>\<open>i2\<close>.\<close>

definition ex_store_delete_failing :: store where
  "ex_store_delete_failing =
     ex_store\<lparr>rejects := (\<lambda>k op. op = DeleteDoc LIST_ITEMS_COLLECTION ''i2'')\<rparr>"

text \<open>A feed whose window holds the message \<^verbatim>\<open>m0\<close>, and a feed whose window holds \<^verbatim>\<open>m2\<close>,
  with \<^verbatim>\<open>m2\<close> as cursor and older pages expected.\<close>

definition ex_feed :: feed where
  "ex_feed = useMessages_init\<lparr>messages := [withReply (ex_msg ''m0'' 0 None) None], loading := False\<rparr>"

definition ex_feed_paging :: feed where
  "ex_feed_paging = useMessages_init\<lparr>messages := [withReply (ex_msg ''m2'' 2 (Some ''m1'')) None],
     loading := False, lastDocRef := Some (ex_msg ''m2'' 2 (Some ''m1''))\<rparr>"

section \<open>Requests only extend the log\<close>

lemma snd_request [simp]: "snd (request op s) = s\<lparr>oplog := oplog s @ [op]\<rparr>"
  by (simp add: request_def)

lemma fst_request [simp]: "fst (request op s) = (\<not> rejects s (length (oplog s)) op)"
  by (simp add: request_def)

lemma snd_getDoc_message_lists [simp]:
  "snd (getDoc_message_lists i s) = s\<lparr>oplog := oplog s @ [GetDoc MESSAGES_COLLECTION_lists i]\<rparr>"
  by (simp add: getDoc_message_lists_def split_beta)

lemma snd_getDoc_messages_lists [simp]:
  "snd (getDoc_messages_lists ids s) =
     s\<lparr>oplog := oplog s @ map (GetDoc MESSAGES_COLLECTION_lists) ids\<rparr>"
  by (induction ids arbitrary: s) (simp_all add: split_beta)

section \<open>Pagination guard\<close>

lemma loadMore_begin_guarded:
  "\<not> truthy userId \<or> loadingMore_c \<or> \<not> hasMore_c \<or> lastDocRef f = None \<Longrightarrow>
     loadMore_begin userId loadingMore_c hasMore_c (s, f) = ((s, f), None)"
  by (simp add: loadMore_begin_def)

lemma loadMore_guarded:
  "\<not> truthy userId \<or> loadingMore_c \<or> \<not> hasMore_c \<or> lastDocRef f = None \<Longrightarrow>
     loadMore userId loadingMore_c hasMore_c (s, f) = (s, f)"
  by (simp add: loadMore_def loadMore_begin_guarded loadMore_resume_def)

text \<open>A callback created by a render that saw the state \<open>f\<close> does nothing under the
  guard, however often it is called.\<close>

lemma loadMore_current_render_noop:
  assumes "\<not> hasMore f \<or> loadingMore f \<or> lastDocRef f = None"
  shows "(loadMore userId (loadingMore f) (hasMore f) ^^ n) (s, f) = (s, f)"
proof (induction n)
  case 0
  show ?case by simp
next
  case (Suc n)
  have "loadMore userId (loadingMore f) (hasMore f) (s, f) = (s, f)"
    using assms loadMore_guarded [of userId "loadingMore f" "hasMore f" f s] by blast
  with Suc show ?case by simp
qed

text \<open>A call the guard lets pass marks the load as in flight and issues the query.\<close>

lemma loadMore_begin_passes:
  assumes "truthy userId" "\<not> loadingMore_c" "hasMore_c" "lastDocRef f = Some c"
  shows "loadMore_begin userId loadingMore_c hasMore_c (s, f) =
     ((s\<lparr>oplog := oplog s @ [older_query c]\<rparr>, f\<lparr>loadingMore := True\<rparr>),
      Some (if rejects s (length (oplog s)) (older_query c) then Inl Rejected
            else Inr (olderQuery c s)))"
  using assms
  by (simp add: loadMore_begin_def Let_def request_def older_query_def olderQuery_def)

section \<open>Operations without an identity\<close>

lemma getListItems_queries:
  "\<exists>ops. oplog (snd (getListItems l s)) =
     oplog s @ GetDocs LIST_ITEMS_COLLECTION [WhereEq ''listId'' l, OrderByDesc ''addedAt''] # ops"
  by (simp add: getListItems_def Let_def split_beta split: sum.splits)

text \<open>
  C9.  With \<^verbatim>\<open>userId\<close> undefined, \<^verbatim>\<open>sendMessage\<close>, \<^verbatim>\<open>sendDrawing\<close>, \<^verbatim>\<open>toggleLike\<close> and \<^verbatim>\<open>loadMore\<close>
  return without an error and leave store, request log and feed as they were (\<^verbatim>\<open>loadMore\<close>
  whatever flags its callback captured);
  \<^verbatim>\<open>createList\<close> returns \<^verbatim>\<open>null\<close>; \<^verbatim>\<open>updateList\<close>, \<^verbatim>\<open>deleteList\<close>, \<^verbatim>\<open>addMessageToList\<close>,
  \<^verbatim>\<open>removeFromList\<close> and \<^verbatim>\<open>toggleItemCompleted\<close> return without effect.  \<^verbatim>\<open>getListItems\<close>,
  which takes no identity, still issues its query.
\<close>

theorem no_identity_noop:
  "sendMessage None txt r s = (Inr (), s) \<and>
   sendDrawing None d r s = (Inr (), s) \<and>
   toggleLike None i (s, f) = (Inr (), s, f) \<and>
   loadMore None loadingMore_c hasMore_c (s, f) = (s, f) \<and>
   createList None n v ty e s = (Inr None, s) \<and>
   updateList None l u s = (Inr (), s) \<and>
   deleteList None l s = (Inr (), s) \<and>
   addMessageToList None l m s = (Inr (), s) \<and>
   removeFromList None l m s = (Inr (), s) \<and>
   toggleItemCompleted None i s = (Inr (), s) \<and>
   (\<exists>ops. oplog (snd (getListItems l s)) =
      oplog s @ GetDocs LIST_ITEMS_COLLECTION [WhereEq ''listId'' l, OrderByDesc ''addedAt''] # ops)"
  using getListItems_queries [of l s]
  by (simp add: truthy_def sendMessage_def sendDrawing_def toggleLike_def loadMore_def
      loadMore_begin_def loadMore_resume_def createList_def updateList_def deleteList_def addMessageToList_def removeFromList_def
      toggleItemCompleted_def)

theorem no_identity_noop_witness:
  "createList None ''Groceries'' Private Checklist None ex_store = (Inr None, ex_store) \<and>
   deleteList None ''l1'' ex_store = (Inr (), ex_store) \<and>
   toggleLike None ''m1'' (ex_store, useMessages_init) = (Inr (), ex_store, useMessages_init)"
  using no_identity_noop [where s = ex_store and n = "''Groceries''" and v = Private
      and ty = Checklist and e = None and l = "''l1''" and i = "''m1''" and f = useMessages_init]
  by simp

section \<open>Batch resolution of reply references\<close>

lemma snd_getDoc_message [simp]:
  "snd (getDoc_message i s) = s\<lparr>oplog := oplog s @ [GetDoc MESSAGES_COLLECTION i]\<rparr>"
  by (simp add: getDoc_message_def split_beta)

lemma fst_getDoc_message:
  "fst (getDoc_message i s) =
     (if rejects s (length (oplog s)) (GetDoc MESSAGES_COLLECTION i) then Inl Rejected
      else Inr (lookup_message i s))"
  by (simp add: getDoc_message_def split_beta lookup_message_def)

lemma snd_getDoc_messages [simp]:
  "snd (getDoc_messages ids s) = s\<lparr>oplog := oplog s @ map (GetDoc MESSAGES_COLLECTION) ids\<rparr>"
  by (induction ids arbitrary: s) (simp_all add: split_beta)

lemma accepts_Cons:
  "accepts s (op # ops) =
     (\<not> rejects s (length (oplog s)) op \<and> accepts (s\<lparr>oplog := oplog s @ [op]\<rparr>) ops)"
  by (simp add: accepts_def)

lemma accepts_Nil [simp]: "accepts s []"
  by (simp add: accepts_def)

lemma lookup_message_oplog [simp]: "lookup_message i (s\<lparr>oplog := l\<rparr>) = lookup_message i s"
  by (simp add: lookup_message_def)

lemma fst_getDoc_messages_accepted:
  "accepts s (map (GetDoc MESSAGES_COLLECTION) ids) \<Longrightarrow>
     fst (getDoc_messages ids s) = map (\<lambda>i. Inr (lookup_message i s)) ids"
  by (induction ids arbitrary: s) (simp_all add: split_beta accepts_Cons fst_getDoc_message)

lemma promise_all_Inr: "promise_all (map (\<lambda>x. Inr (g x)) xs) = Inr (map g xs)"
  by (induction xs) simp_all

lemma promise_all_Inl: "Inl e \<in> set rs \<Longrightarrow> \<exists>e'. promise_all rs = Inl e'"
proof (induction rs)
  case Nil
  then show ?case by simp
next
  case (Cons r rs)
  then show ?case by (cases r) (auto split: sum.splits)
qed

lemma fst_getDoc_messages_rejected:
  "\<not> accepts s (map (GetDoc MESSAGES_COLLECTION) ids) \<Longrightarrow>
     Inl Rejected \<in> set (fst (getDoc_messages ids s))"
  by (induction ids arbitrary: s) (auto simp add: split_beta accepts_Cons fst_getDoc_message)

lemma getDoc_messages_errors:
  "Inl e \<in> set (fst (getDoc_messages ids s)) \<Longrightarrow> e = Rejected"
  by (induction ids arbitrary: s) (auto simp add: split_beta fst_getDoc_message split: if_splits)

lemma promise_all_error: "promise_all rs = Inl e \<Longrightarrow> Inl e \<in> set rs"
proof (induction rs)
  case Nil
  then show ?case by simp
next
  case (Cons r rs)
  then show ?case by (cases r) (auto split: sum.splits)
qed

lemma find_id: "find (\<lambda>m. id' m = i) ms = Some m \<Longrightarrow> id' m = i"
  by (induction ms) (auto split: if_splits)

lemma lookup_message_id: "lookup_message i s = Some m \<Longrightarrow> id' m = i"
  unfolding lookup_message_def by (rule find_id)

lemma docMap_foldl:
  "(\<And>i m. g i = Some m \<Longrightarrow> id' m = i) \<Longrightarrow>
   foldl (\<lambda>mp d. case d of None \<Rightarrow> mp | Some m \<Rightarrow> mp(id' m \<mapsto> m)) mp (map g ids) j =
     (if j \<in> set ids \<and> g j \<noteq> None then g j else mp j)"
proof (induction ids arbitrary: mp)
  case Nil
  then show ?case by simp
next
  case (Cons i ids)
  show ?case
  proof (cases "g i")
    case None
    with Cons show ?thesis by auto
  next
    case (Some m)
    with Cons.prems have "id' m = i" by blast
    with Some Cons show ?thesis by auto
  qed
qed

lemma replyMap_of_lookups:
  "replyMap_of (map (\<lambda>i. lookup_message i s) ids) j =
     (if j \<in> set ids then lookup_message j s else None)"
  unfolding replyMap_of_def
  using docMap_foldl [where g = "\<lambda>i. lookup_message i s" and mp = Map.empty and j = j and ids = ids]
  by (auto simp: lookup_message_id)

lemma set_unique [simp]: "set (unique xs) = set xs"
  by (simp add: unique_def)

lemma distinct_unique [simp]: "distinct (unique xs)"
  by (simp add: unique_def)

lemma replyTo_in_replyIds:
  "m \<in> set msgs \<Longrightarrow> truthy (replyTo m) \<Longrightarrow> the (replyTo m) \<in> set (replyIds_of msgs)"
  by (auto simp: replyIds_of_def)

lemma fetchReplyMessages_accepted:
  assumes "accepts s (map (GetDoc MESSAGES_COLLECTION) (unique (replyIds_of msgs)))"
  shows "fetchReplyMessages msgs s =
     (Inr (map (resolved s) msgs),
      s\<lparr>oplog := oplog s @ map (GetDoc MESSAGES_COLLECTION) (unique (replyIds_of msgs))\<rparr>)"
proof (cases "replyIds_of msgs = []")
  case True
  then have "\<forall>m \<in> set msgs. \<not> truthy (replyTo m)"
    by (auto simp: replyIds_of_def filter_empty_conv)
  then have "map (\<lambda>m. withReply m None) msgs = map (resolved s) msgs"
    by (simp add: resolved_def)
  with True show ?thesis
    by (simp add: fetchReplyMessages_def unique_def)
next
  case False
  let ?ids = "unique (replyIds_of msgs)"
  have r: "fst (getDoc_messages ?ids s) = map (\<lambda>i. Inr (lookup_message i s)) ?ids"
    using assms by (rule fst_getDoc_messages_accepted)
  have "map (\<lambda>m. withReply m (if truthy (replyTo m)
            then replyMap_of (map (\<lambda>i. lookup_message i s) ?ids) (the (replyTo m)) else None)) msgs
        = map (resolved s) msgs"
    by (rule map_cong) (auto simp: replyMap_of_lookups resolved_def replyTo_in_replyIds)
  with False r show ?thesis
    by (simp add: fetchReplyMessages_def Let_def split_beta promise_all_Inr)
qed

lemma fetchReplyMessages_rejected:
  assumes "\<not> accepts s (map (GetDoc MESSAGES_COLLECTION) (unique (replyIds_of msgs)))"
  shows "fetchReplyMessages msgs s =
     (Inl Rejected,
      s\<lparr>oplog := oplog s @ map (GetDoc MESSAGES_COLLECTION) (unique (replyIds_of msgs))\<rparr>)"
proof -
  let ?ids = "unique (replyIds_of msgs)"
  from assms have ne: "replyIds_of msgs \<noteq> []"
    by (auto simp: unique_def)
  have "Inl Rejected \<in> set (fst (getDoc_messages ?ids s))"
    using assms by (rule fst_getDoc_messages_rejected)
  then obtain e where e: "promise_all (fst (getDoc_messages ?ids s)) = Inl e"
    using promise_all_Inl by blast
  then have "e = Rejected"
    using promise_all_error getDoc_messages_errors by blast
  with e ne show ?thesis
    by (simp add: fetchReplyMessages_def Let_def split_beta)
qed

section \<open>Delivery of the live window\<close>

lemma replyIds_set:
  "set (replyIds_of batch) = {i. i \<noteq> [] \<and> (\<exists>m \<in> set batch. replyTo m = Some i)}"
proof (intro set_eqI iffI)
  fix i
  assume "i \<in> set (replyIds_of batch)"
  then show "i \<in> {i. i \<noteq> [] \<and> (\<exists>m \<in> set batch. replyTo m = Some i)}"
    by (auto simp: replyIds_of_def truthy_def split: option.splits)
next
  fix i
  assume "i \<in> {i. i \<noteq> [] \<and> (\<exists>m \<in> set batch. replyTo m = Some i)}"
  then obtain m where m: "m \<in> set batch" "replyTo m = Some i" "i \<noteq> []"
    by blast
  then have "truthy (replyTo m)" "the (replyTo m) = i"
    by (simp_all add: truthy_def)
  with m(1) show "i \<in> set (replyIds_of batch)"
    using replyTo_in_replyIds by blast
qed

lemma truncate_withReply [simp]: "message.truncate (withReply m r) = m"
  by (simp add: withReply_def message.defs message_with_reply.defs doc.defs)

lemma replyToMessage_withReply [simp]: "replyToMessage (withReply m r) = r"
  by (simp add: withReply_def message.defs message_with_reply.defs doc.defs)

lemma id_withReply [simp]: "id' (withReply m r) = id' m"
  by (simp add: withReply_def message.defs message_with_reply.defs doc.defs)

text \<open>
  C1 (as amended).  For every delivery of a batch (newest first) to the live subscription,
  the handler sets the cursor to the last, that is the oldest, item of the batch (to null
  when the batch is empty), sets \<^verbatim>\<open>hasMore\<close> to true iff the batch has exactly 50 items, and
  issues one point read for each distinct truthy \<^verbatim>\<open>replyTo\<close> of the batch.  When the store
  answers these reads, the visible window becomes the batch in reversed (oldest first)
  order, whatever it held before, each item carrying the message its \<^verbatim>\<open>replyTo\<close> resolves
  to, and null when \<^verbatim>\<open>replyTo\<close> is null or empty or no such document exists.  When one
  of the reads is rejected, the window stays as it was and the feed error becomes
  \<^verbatim>\<open>'Failed to load messages'\<close>.
\<close>

theorem onSnapshot_next_delivery:
  "onSnapshot_next batch (s, f) = (s', f') \<Longrightarrow>
     lastDocRef f' = (if batch = [] then None else Some (last batch)) \<and>
     hasMore f' = (length batch = 50) \<and>
     oplog s' = oplog s @ map (GetDoc MESSAGES_COLLECTION) (unique (replyIds_of batch)) \<and>
     distinct (unique (replyIds_of batch)) \<and>
     set (unique (replyIds_of batch)) = {i. i \<noteq> [] \<and> (\<exists>m \<in> set batch. replyTo m = Some i)} \<and>
     (accepts s (map (GetDoc MESSAGES_COLLECTION) (unique (replyIds_of batch))) \<longrightarrow>
        messages f' = rev (map (resolved s) batch) \<and>
        map message.truncate (messages f') = rev batch \<and>
        map replyToMessage (messages f') =
          rev (map (\<lambda>m. if truthy (replyTo m) then lookup_message (the (replyTo m)) s else None)
                 batch)) \<and>
     (\<not> accepts s (map (GetDoc MESSAGES_COLLECTION) (unique (replyIds_of batch))) \<longrightarrow>
        messages f' = messages f \<and> error f' = Some ''Failed to load messages'')"
proof (cases "accepts s (map (GetDoc MESSAGES_COLLECTION) (unique (replyIds_of batch)))")
  case True
  assume "onSnapshot_next batch (s, f) = (s', f')"
  with fetchReplyMessages_accepted [OF True] True show ?thesis
    by (auto simp: onSnapshot_next_def Let_def MESSAGES_PER_PAGE_def replyIds_set rev_map
        resolved_def o_def)
next
  case False
  assume "onSnapshot_next batch (s, f) = (s', f')"
  with fetchReplyMessages_rejected [OF False] False show ?thesis
    by (auto simp: onSnapshot_next_def Let_def MESSAGES_PER_PAGE_def replyIds_set)
qed

theorem onSnapshot_next_delivery_witness:
  "accepts ex_store (map (GetDoc MESSAGES_COLLECTION) (unique (replyIds_of ex_batch))) \<and>
   map id' (messages (snd (onSnapshot_next ex_batch (ex_store, useMessages_init)))) = [''m1'', ''m2''] \<and>
   map replyToMessage (messages (snd (onSnapshot_next ex_batch (ex_store, useMessages_init)))) =
     [None, Some (ex_msg ''m1'' 1 None)] \<and>
   lastDocRef (snd (onSnapshot_next ex_batch (ex_store, useMessages_init))) = Some (ex_msg ''m1'' 1 None) \<and>
   \<not> hasMore (snd (onSnapshot_next ex_batch (ex_store, useMessages_init))) \<and>
   \<not> accepts ex_store_failing
       (map (GetDoc MESSAGES_COLLECTION) (unique (replyIds_of ex_batch_replies))) \<and>
   messages (snd (onSnapshot_next ex_batch_replies (ex_store_failing, ex_feed))) = messages ex_feed"
proof -
  have a: "accepts ex_store (map (GetDoc MESSAGES_COLLECTION) (unique (replyIds_of ex_batch)))"
    by (simp add: accepts_def ex_store_def ex_batch_def replyIds_of_def unique_def ex_msg_def truthy_def)
  have l: "lookup_message ''m1'' ex_store = Some (ex_msg ''m1'' 1 None)"
    by (simp add: lookup_message_def ex_store_def ex_msg_def)
  have n: "\<not> accepts ex_store_failing
       (map (GetDoc MESSAGES_COLLECTION) (unique (replyIds_of ex_batch_replies)))"
    by (simp add: accepts_def ex_store_failing_def ex_store_def ex_batch_replies_def replyIds_of_def
        unique_def ex_msg_def truthy_def)
  have r: "messages (snd (onSnapshot_next ex_batch_replies (ex_store_failing, ex_feed))) =
             messages ex_feed"
    using n onSnapshot_next_delivery [where batch = ex_batch_replies and s = ex_store_failing
      and f = ex_feed
      and s' = "fst (onSnapshot_next ex_batch_replies (ex_store_failing, ex_feed))"
      and f' = "snd (onSnapshot_next ex_batch_replies (ex_store_failing, ex_feed))"]
    by simp
  show ?thesis
    using a l n r onSnapshot_next_delivery [where batch = ex_batch and s = ex_store and f = useMessages_init
      and s' = "fst (onSnapshot_next ex_batch (ex_store, useMessages_init))"
      and f' = "snd (onSnapshot_next ex_batch (ex_store, useMessages_init))"]
    by (simp add: resolved_def ex_batch_def ex_msg_def truthy_def rev_map)
qed

section \<open>Rejected point reads\<close>

lemma fst_getDoc_message_lists:
  "fst (getDoc_message_lists i s) =
     (if rejects s (length (oplog s)) (GetDoc MESSAGES_COLLECTION_lists i) then Inl Rejected
      else Inr (lookup_message_lists i s))"
  by (simp add: getDoc_message_lists_def split_beta lookup_message_lists_def)

lemma lookup_message_lists_oplog [simp]:
  "lookup_message_lists i (s\<lparr>oplog := l\<rparr>) = lookup_message_lists i s"
  by (simp add: lookup_message_lists_def)

lemma fst_getDoc_messages_lists_accepted:
  "accepts s (map (GetDoc MESSAGES_COLLECTION_lists) ids) \<Longrightarrow>
     fst (getDoc_messages_lists ids s) = map (\<lambda>i. Inr (lookup_message_lists i s)) ids"
  by (induction ids arbitrary: s)
     (simp_all add: split_beta accepts_Cons fst_getDoc_message_lists)

lemma fst_getDoc_messages_lists_rejected:
  "\<not> accepts s (map (GetDoc MESSAGES_COLLECTION_lists) ids) \<Longrightarrow>
     Inl Rejected \<in> set (fst (getDoc_messages_lists ids s))"
  by (induction ids arbitrary: s)
     (auto simp add: split_beta accepts_Cons fst_getDoc_message_lists)

lemma lookup_message_lists_id: "lookup_message_lists i s = Some m \<Longrightarrow> id' m = i"
  unfolding lookup_message_lists_def by (rule find_id)

lemma messageMap_of_lookups:
  "messageMap_of (map (\<lambda>i. lookup_message_lists i s) ids) j =
     (if j \<in> set ids then lookup_message_lists j s else None)"
  unfolding messageMap_of_def
  using docMap_foldl [where g = "\<lambda>i. lookup_message_lists i s" and mp = Map.empty and j = j
      and ids = ids]
  by (auto simp: lookup_message_lists_id)

lemma itemsOfListByAddedAtDesc_oplog [simp]:
  "itemsOfListByAddedAtDesc l (s\<lparr>oplog := ops\<rparr>) = itemsOfListByAddedAtDesc l s"
  by (simp add: itemsOfListByAddedAtDesc_def itemsOfList_def)


lemma getListItems_accepted:
  assumes "accepts s (listItems_query l #
             map (GetDoc MESSAGES_COLLECTION_lists) (map messageId (itemsOfListByAddedAtDesc l s)))"
  shows "fst (getListItems l s) = Inr (map (resolved_item s) (itemsOfListByAddedAtDesc l s))"
proof -
  let ?items = "itemsOfListByAddedAtDesc l s"
  let ?s1 = "s\<lparr>oplog := oplog s @ [listItems_query l]\<rparr>"
  from assms have q: "\<not> rejects s (length (oplog s)) (listItems_query l)"
    and a: "accepts ?s1 (map (GetDoc MESSAGES_COLLECTION_lists) (map messageId ?items))"
    by (simp_all add: accepts_Cons)
  have r: "fst (getDoc_messages_lists (map messageId ?items) ?s1) =
             map (\<lambda>i. Inr (lookup_message_lists i s)) (map messageId ?items)"
    using fst_getDoc_messages_lists_accepted [OF a] by simp
  have m: "map (\<lambda>item. withMessage item
                 (messageMap_of (map (\<lambda>i. lookup_message_lists i s) (map messageId ?items))
                    (messageId item))) ?items
           = map (resolved_item s) ?items"
    by (rule map_cong) (auto simp: messageMap_of_lookups resolved_item_def simp del: map_map)
  from q r m show ?thesis
    by (simp add: getListItems_def Let_def split_beta promise_all_Inr listItems_query_def
        del: map_map)
qed

lemma getListItems_rejected:
  assumes "\<not> accepts s (listItems_query l #
             map (GetDoc MESSAGES_COLLECTION_lists) (map messageId (itemsOfListByAddedAtDesc l s)))"
  shows "fst (getListItems l s) = Inl (Error ''Failed to load list items'')"
proof (cases "rejects s (length (oplog s)) (listItems_query l)")
  case True
  then show ?thesis
    by (simp add: getListItems_def Let_def split_beta listItems_query_def)
next
  case False
  let ?items = "itemsOfListByAddedAtDesc l s"
  let ?s1 = "s\<lparr>oplog := oplog s @ [listItems_query l]\<rparr>"
  from assms False
  have "\<not> accepts ?s1 (map (GetDoc MESSAGES_COLLECTION_lists) (map messageId ?items))"
    by (simp add: accepts_Cons)
  then have "Inl Rejected \<in> set (fst (getDoc_messages_lists (map messageId ?items) ?s1))"
    by (rule fst_getDoc_messages_lists_rejected)
  then obtain e where "promise_all (fst (getDoc_messages_lists (map messageId ?items) ?s1)) = Inl e"
    using promise_all_Inl by blast
  with False show ?thesis
    by (simp add: getListItems_def Let_def split_beta listItems_query_def del: map_map)
qed

text \<open>
  C2 (as amended).  A rejected point read aborts the whole batch.  In the feed, when any of
  the deduplicated reply reads is rejected, \<^verbatim>\<open>fetchReplyMessages\<close> fails as a whole, the
  delivery leaves the visible window as it was and sets the error
  \<^verbatim>\<open>'Failed to load messages'\<close>.  \<^verbatim>\<open>getListItems\<close> raises \<^verbatim>\<open>'Failed to load list items'\<close> when
  its query or any of its message reads is rejected.  When every request is accepted, the
  batch succeeds, and a reference whose document does not exist resolves to null on its
  own.
\<close>

theorem batch_read_rejection:
  "(\<not> accepts s (map (GetDoc MESSAGES_COLLECTION) (unique (replyIds_of batch))) \<longrightarrow>
      fst (fetchReplyMessages batch s) = Inl Rejected \<and>
      messages (snd (onSnapshot_next batch (s, f))) = messages f \<and>
      error (snd (onSnapshot_next batch (s, f))) = Some ''Failed to load messages'') \<and>
   (accepts s (map (GetDoc MESSAGES_COLLECTION) (unique (replyIds_of batch))) \<longrightarrow>
      fst (fetchReplyMessages batch s) = Inr (map (resolved s) batch)) \<and>
   (\<not> accepts s (listItems_query l #
        map (GetDoc MESSAGES_COLLECTION_lists) (map messageId (itemsOfListByAddedAtDesc l s))) \<longrightarrow>
      fst (getListItems l s) = Inl (Error ''Failed to load list items'')) \<and>
   (accepts s (listItems_query l #
        map (GetDoc MESSAGES_COLLECTION_lists) (map messageId (itemsOfListByAddedAtDesc l s))) \<longrightarrow>
      fst (getListItems l s) = Inr (map (resolved_item s) (itemsOfListByAddedAtDesc l s)))"
  using fetchReplyMessages_rejected [of s batch] fetchReplyMessages_accepted [of s batch]
    getListItems_rejected [of s l] getListItems_accepted [of s l]
  by (auto simp: onSnapshot_next_def Let_def)

lemma ex_items_sorted:
  "itemsOfListByAddedAtDesc ''l1'' ex_store_failing = [ex_item ''i2'' ''l1'' ''m2'', ex_item ''i1'' ''l1'' ''m1'']"
  by (simp add: itemsOfListByAddedAtDesc_def itemsOfList_def ex_store_failing_def ex_store_def ex_item_def
      less_eq_prod_def less_prod_def)

lemma ex_replies_ids: "unique (replyIds_of ex_batch_replies) = [''m2'', ''m1'']"
  by (simp add: unique_def replyIds_of_def ex_batch_replies_def ex_msg_def truthy_def)

lemma ex_store_env [simp]:
  "oplog ex_store = []" "rejects ex_store k op = False"
  "oplog ex_store_failing = []"
  "rejects ex_store_failing k (GetDoc c i) = (i = ''m1'')"
  "rejects ex_store_failing k (UpdateDoc c i) = True"
  "rejects ex_store_failing k (GetDocs c q) = False"
  by (simp_all add: ex_store_failing_def ex_store_def)

lemma ex_replies_rejected:
  "\<not> accepts ex_store_failing (map (GetDoc MESSAGES_COLLECTION) (unique (replyIds_of ex_batch_replies)))"
  by (simp add: ex_replies_ids accepts_def)

lemma ex_items_rejected:
  "\<not> accepts ex_store_failing (listItems_query ''l1'' #
        map (GetDoc MESSAGES_COLLECTION_lists)
          (map messageId (itemsOfListByAddedAtDesc ''l1'' ex_store_failing)))"
  by (simp add: ex_items_sorted accepts_def ex_item_def listItems_query_def)

theorem batch_read_rejection_counterexample:
  "\<not> rejects ex_store_failing 0 (GetDoc MESSAGES_COLLECTION ''m2'') \<and>
   rejects ex_store_failing 1 (GetDoc MESSAGES_COLLECTION ''m1'') \<and>
   unique (replyIds_of ex_batch_replies) = [''m2'', ''m1''] \<and>
   fst (fetchReplyMessages ex_batch_replies ex_store_failing) = Inl Rejected \<and>
   messages (snd (onSnapshot_next ex_batch_replies (ex_store_failing, useMessages_init))) = [] \<and>
   error (snd (onSnapshot_next ex_batch_replies (ex_store_failing, useMessages_init))) =
     Some ''Failed to load messages'' \<and>
   map messageId (itemsOfListByAddedAtDesc ''l1'' ex_store_failing) = [''m2'', ''m1''] \<and>
   \<not> rejects ex_store_failing 1 (GetDoc MESSAGES_COLLECTION_lists ''m2'') \<and>
   rejects ex_store_failing 2 (GetDoc MESSAGES_COLLECTION_lists ''m1'') \<and>
   fst (getListItems ''l1'' ex_store_failing) = Inl (Error ''Failed to load list items'')"
proof -
  have r: "\<not> rejects ex_store_failing 0 (GetDoc MESSAGES_COLLECTION ''m2'')"
    "rejects ex_store_failing 1 (GetDoc MESSAGES_COLLECTION ''m1'')"
    "\<not> rejects ex_store_failing 1 (GetDoc MESSAGES_COLLECTION_lists ''m2'')"
    "rejects ex_store_failing 2 (GetDoc MESSAGES_COLLECTION_lists ''m1'')"
    by simp_all
  have f: "fetchReplyMessages ex_batch_replies ex_store_failing =
      (Inl Rejected, ex_store_failing\<lparr>oplog := oplog ex_store_failing @
         map (GetDoc MESSAGES_COLLECTION) (unique (replyIds_of ex_batch_replies))\<rparr>)"
    using ex_replies_rejected by (rule fetchReplyMessages_rejected)
  have w: "messages (snd (onSnapshot_next ex_batch_replies (ex_store_failing, useMessages_init))) = []"
    "error (snd (onSnapshot_next ex_batch_replies (ex_store_failing, useMessages_init))) =
       Some ''Failed to load messages''"
    by (simp_all add: onSnapshot_next_def Let_def f useMessages_init_def)
  have g: "fst (getListItems ''l1'' ex_store_failing) = Inl (Error ''Failed to load list items'')"
    using ex_items_rejected by (rule getListItems_rejected)
  have i: "map messageId (itemsOfListByAddedAtDesc ''l1'' ex_store_failing) = [''m2'', ''m1'']"
    by (simp add: ex_items_sorted ex_item_def)
  from r f w g i ex_replies_ids show ?thesis by simp
qed

lemma ex_items_sorted_ok:
  "itemsOfListByAddedAtDesc ''l1'' ex_store = [ex_item ''i2'' ''l1'' ''m2'', ex_item ''i1'' ''l1'' ''m1'']"
  by (simp add: itemsOfListByAddedAtDesc_def itemsOfList_def ex_store_def ex_item_def
      less_eq_prod_def less_prod_def)

theorem batch_read_rejection_witness:
  "\<not> accepts ex_store_failing (map (GetDoc MESSAGES_COLLECTION) (unique (replyIds_of ex_batch_replies))) \<and>
   error (snd (onSnapshot_next ex_batch_replies (ex_store_failing, useMessages_init))) =
     Some ''Failed to load messages'' \<and>
   accepts ex_store (map (GetDoc MESSAGES_COLLECTION) (unique (replyIds_of ex_batch))) \<and>
   map replyToMessage (projr (fst (fetchReplyMessages ex_batch ex_store))) =
     [Some (ex_msg ''m1'' 1 None), None] \<and>
   \<not> accepts ex_store_failing (listItems_query ''l1'' #
        map (GetDoc MESSAGES_COLLECTION_lists)
          (map messageId (itemsOfListByAddedAtDesc ''l1'' ex_store_failing))) \<and>
   fst (getListItems ''l1'' ex_store_failing) = Inl (Error ''Failed to load list items'') \<and>
   accepts ex_store (listItems_query ''l1'' #
        map (GetDoc MESSAGES_COLLECTION_lists) (map messageId (itemsOfListByAddedAtDesc ''l1'' ex_store))) \<and>
   map message (projr (fst (getListItems ''l1'' ex_store))) = [None, Some (ex_msg ''m1'' 1 None)]"
proof -
  have a: "accepts ex_store (listItems_query ''l1'' #
        map (GetDoc MESSAGES_COLLECTION_lists) (map messageId (itemsOfListByAddedAtDesc ''l1'' ex_store)))"
    by (simp add: ex_items_sorted_ok accepts_def ex_item_def listItems_query_def)
  have b: "accepts ex_store (map (GetDoc MESSAGES_COLLECTION) (unique (replyIds_of ex_batch)))"
    by (simp add: accepts_def ex_batch_def replyIds_of_def unique_def ex_msg_def truthy_def)
  have l: "lookup_message_lists ''m1'' ex_store = Some (ex_msg ''m1'' 1 None)"
    "lookup_message_lists ''m2'' ex_store = None"
    "lookup_message ''m1'' ex_store = Some (ex_msg ''m1'' 1 None)"
    by (simp_all add: lookup_message_lists_def lookup_message_def ex_store_def ex_msg_def)
  show ?thesis
    using a b l ex_replies_rejected ex_items_rejected
      batch_read_rejection [where s = ex_store_failing and batch = ex_batch_replies
        and f = useMessages_init and l = "''l1''"]
      batch_read_rejection [where s = ex_store and batch = ex_batch
        and f = useMessages_init and l = "''l1''"]
    by (simp add: ex_items_sorted_ok resolved_item_def withMessage_def ex_item_def
        list_item.defs list_item_with_message.defs doc.defs resolved_def ex_batch_def
        ex_msg_def truthy_def)
qed

text \<open>The delivery of C1 with a rejected read, on a window that holds a message.\<close>

theorem onSnapshot_next_delivery_counterexample:
  "\<not> rejects ex_store_failing 0 (GetDoc MESSAGES_COLLECTION ''m2'') \<and>
   rejects ex_store_failing 1 (GetDoc MESSAGES_COLLECTION ''m1'') \<and>
   map id' (messages ex_feed) = [''m0''] \<and>
   map id' (rev ex_batch_replies) = [''m3'', ''m4''] \<and>
   map id' (messages (snd (onSnapshot_next ex_batch_replies (ex_store_failing, ex_feed)))) = [''m0''] \<and>
   error (snd (onSnapshot_next ex_batch_replies (ex_store_failing, ex_feed))) =
     Some ''Failed to load messages'' \<and>
   lastDocRef (snd (onSnapshot_next ex_batch_replies (ex_store_failing, ex_feed))) =
     Some (ex_msg ''m3'' 3 (Some ''m1''))"
proof -
  have f: "fetchReplyMessages ex_batch_replies ex_store_failing =
      (Inl Rejected, ex_store_failing\<lparr>oplog := oplog ex_store_failing @
         map (GetDoc MESSAGES_COLLECTION) (unique (replyIds_of ex_batch_replies))\<rparr>)"
    using ex_replies_rejected by (rule fetchReplyMessages_rejected)
  have w: "map id' (messages ex_feed) = [''m0'']"
    by (simp add: ex_feed_def useMessages_init_def ex_msg_def)
  have b: "map id' (rev ex_batch_replies) = [''m3'', ''m4'']"
    "ex_batch_replies \<noteq> []" "last ex_batch_replies = ex_msg ''m3'' 3 (Some ''m1'')"
    by (simp_all add: ex_batch_replies_def ex_msg_def)
  show ?thesis
    using w b by (simp add: onSnapshot_next_def Let_def f)
qed

section \<open>Repeated calls of loadMore\<close>

lemma accepts_append:
  "accepts s (ops @ ops') = (accepts s ops \<and> accepts (s\<lparr>oplog := oplog s @ ops\<rparr>) ops')"
proof (induction ops arbitrary: s)
  case Nil
  show ?case by (simp add: accepts_def)
next
  case (Cons op ops)
  show ?case
    using Cons.IH [of "s\<lparr>oplog := oplog s @ [op]\<rparr>"]
    by (simp add: accepts_Cons)
qed

lemma resolved_oplog [simp]: "resolved (s\<lparr>oplog := ops\<rparr>) = resolved s"
  by (rule ext) (simp add: resolved_def)

lemma olderQuery_oplog [simp]: "olderQuery c (s\<lparr>oplog := ops\<rparr>) = olderQuery c s"
  by (simp add: olderQuery_def)

text \<open>A suspended call whose query brought a non-empty page, the reply reads being
  accepted, runs to its end: it moves the cursor, sets \<^verbatim>\<open>hasMore\<close> and prepends the page.\<close>

lemma loadMore_resume_accepted:
  assumes "page \<noteq> []"
    and "accepts s (map (GetDoc MESSAGES_COLLECTION) (unique (replyIds_of page)))"
  shows "loadMore_resume (Some (Inr page)) (s, f) =
     (s\<lparr>oplog := oplog s @ map (GetDoc MESSAGES_COLLECTION) (unique (replyIds_of page))\<rparr>,
      f\<lparr>lastDocRef := Some (last page), hasMore := (length page = MESSAGES_PER_PAGE),
        messages := rev (map (resolved s) page) @ messages f, loadingMore := False\<rparr>)"
  using assms(1) fetchReplyMessages_accepted [OF assms(2)]
  by (simp add: loadMore_resume_def loadMore_page_def loadMore_finish_def Let_def)

text \<open>
  C3.  The claim fails on the code while a page load is in flight.  The guard reads
  \<^verbatim>\<open>loadingMore\<close> and \<^verbatim>\<open>hasMore\<close> as the callback captured them at its render, so a second
  call of the same callback, made while the first is suspended at its query, passes the
  guard although the load is marked as in flight: it issues the query again, with the
  same cursor, and when both calls have run to their ends the page stands twice at the
  front of the window.
\<close>

theorem loadMore_twice_in_flight:
  assumes "truthy userId" and "hasMore f" and "\<not> loadingMore f" and "lastDocRef f = Some c"
    and "olderQuery c s = page" and "page \<noteq> []"
    and "accepts s (older_query c # older_query c #
           map (GetDoc MESSAGES_COLLECTION) (unique (replyIds_of page)) @
           map (GetDoc MESSAGES_COLLECTION) (unique (replyIds_of page)))"
  shows "loadingMore (snd (fst (loadMore_begin userId (loadingMore f) (hasMore f) (s, f)))) \<and>
         oplog (fst (loadMore_twice userId (loadingMore f) (hasMore f) (s, f))) =
           oplog s @ older_query c # older_query c #
             map (GetDoc MESSAGES_COLLECTION) (unique (replyIds_of page)) @
             map (GetDoc MESSAGES_COLLECTION) (unique (replyIds_of page)) \<and>
         messages (snd (loadMore_twice userId (loadingMore f) (hasMore f) (s, f))) =
           rev (map (resolved s) page) @ rev (map (resolved s) page) @ messages f"
proof -
  let ?q = "older_query c"
  let ?reads = "map (GetDoc MESSAGES_COLLECTION) (unique (replyIds_of page))"
  let ?sA = "s\<lparr>oplog := oplog s @ [?q]\<rparr>"
  let ?fA = "f\<lparr>loadingMore := True\<rparr>"
  let ?sB = "?sA\<lparr>oplog := oplog ?sA @ [?q]\<rparr>"
  let ?sC = "?sB\<lparr>oplog := oplog ?sB @ ?reads\<rparr>"
  from assms(7) have q1: "\<not> rejects s (length (oplog s)) ?q"
    and q2: "\<not> rejects ?sA (length (oplog ?sA)) ?q"
    and r: "accepts ?sB (?reads @ ?reads)"
    by (simp_all add: accepts_Cons)
  from r have r1: "accepts ?sB ?reads" and r2: "accepts ?sC ?reads"
    by (simp_all add: accepts_append)
  have b1: "loadMore_begin userId (loadingMore f) (hasMore f) (s, f) = ((?sA, ?fA), Some (Inr page))"
    using loadMore_begin_passes [OF assms(1,3,2,4), of s] q1 assms(5) by simp
  have "lastDocRef ?fA = Some c" using assms(4) by simp
  from loadMore_begin_passes [OF assms(1,3,2) this, of ?sA] q2 assms(5)
  have b2: "loadMore_begin userId (loadingMore f) (hasMore f) (?sA, ?fA) = ((?sB, ?fA), Some (Inr page))"
    by simp
  have t: "loadMore_twice userId (loadingMore f) (hasMore f) (s, f) =
             loadMore_resume (Some (Inr page)) (loadMore_resume (Some (Inr page)) (?sB, ?fA))"
    by (simp add: loadMore_twice_def b1 b2)
  have e1: "loadMore_resume (Some (Inr page)) (?sB, ?fA) =
     (?sC, ?fA\<lparr>lastDocRef := Some (last page), hasMore := (length page = MESSAGES_PER_PAGE),
        messages := rev (map (resolved ?sB) page) @ messages ?fA, loadingMore := False\<rparr>)"
    using assms(6) r1 by (rule loadMore_resume_accepted)
  have e2: "loadMore_resume (Some (Inr page))
       (?sC, ?fA\<lparr>lastDocRef := Some (last page), hasMore := (length page = MESSAGES_PER_PAGE),
          messages := rev (map (resolved ?sB) page) @ messages ?fA, loadingMore := False\<rparr>) =
     (?sC\<lparr>oplog := oplog ?sC @ ?reads\<rparr>,
      (?fA\<lparr>lastDocRef := Some (last page), hasMore := (length page = MESSAGES_PER_PAGE),
          messages := rev (map (resolved ?sB) page) @ messages ?fA, loadingMore := False\<rparr>)
        \<lparr>lastDocRef := Some (last page), hasMore := (length page = MESSAGES_PER_PAGE),
          messages := rev (map (resolved ?sC) page) @
            messages (?fA\<lparr>lastDocRef := Some (last page), hasMore := (length page = MESSAGES_PER_PAGE),
               messages := rev (map (resolved ?sB) page) @ messages ?fA, loadingMore := False\<rparr>),
          loadingMore := False\<rparr>)"
    using assms(6) r2 by (rule loadMore_resume_accepted)
  show ?thesis
    unfolding b1 t e1 e2 by simp
qed

lemma ex_older_page:
  "olderQuery (ex_msg ''m2'' 2 (Some ''m1'')) ex_store = [ex_msg ''m1'' 1 None]"
  by (simp add: olderQuery_def orderKey_def ex_store_def ex_msg_def less_prod_def less_eq_prod_def
      MESSAGES_PER_PAGE_def)

theorem loadMore_twice_in_flight_witness:
  "truthy (Some ''alice'') \<and> hasMore ex_feed_paging \<and> \<not> loadingMore ex_feed_paging \<and>
   lastDocRef ex_feed_paging = Some (ex_msg ''m2'' 2 (Some ''m1'')) \<and>
   olderQuery (ex_msg ''m2'' 2 (Some ''m1'')) ex_store = [ex_msg ''m1'' 1 None] \<and>
   loadingMore (snd (fst (loadMore_begin (Some ''alice'') False True (ex_store, ex_feed_paging)))) \<and>
   oplog (fst (loadMore_twice (Some ''alice'') False True (ex_store, ex_feed_paging))) =
     [older_query (ex_msg ''m2'' 2 (Some ''m1'')), older_query (ex_msg ''m2'' 2 (Some ''m1''))] \<and>
   map id' (messages (snd (loadMore_twice (Some ''alice'') False True (ex_store, ex_feed_paging)))) =
     [''m1'', ''m1'', ''m2'']"
proof -
  let ?c = "ex_msg ''m2'' 2 (Some ''m1'')"
  have t: "truthy (Some ''alice'')" by (simp add: truthy_def)
  have f: "hasMore ex_feed_paging" "\<not> loadingMore ex_feed_paging"
    "lastDocRef ex_feed_paging = Some ?c"
    "map id' (messages ex_feed_paging) = [''m2'']"
    by (simp_all add: ex_feed_paging_def useMessages_init_def ex_msg_def)
  have n: "[ex_msg ''m1'' 1 None] \<noteq> []" by simp
  have i: "replyIds_of [ex_msg ''m1'' 1 None] = []"
    by (simp add: replyIds_of_def ex_msg_def truthy_def)
  have a: "accepts ex_store (older_query ?c # older_query ?c #
           map (GetDoc MESSAGES_COLLECTION) (unique (replyIds_of [ex_msg ''m1'' 1 None])) @
           map (GetDoc MESSAGES_COLLECTION) (unique (replyIds_of [ex_msg ''m1'' 1 None])))"
    unfolding i by (simp add: unique_def accepts_def)
  from loadMore_twice_in_flight [OF t f(1) f(2) f(3) ex_older_page n a, unfolded i]
    t f ex_older_page
  show ?thesis by (simp add: unique_def rev_map resolved_def ex_msg_def truthy_def)
qed

section \<open>Membership of a message in a list\<close>

lemma addDoc_item_eq:
  "addDoc_item d s =
     (if rejects s (length (oplog s)) (AddDoc LIST_ITEMS_COLLECTION)
      then (Inl Rejected, s\<lparr>oplog := oplog s @ [AddDoc LIST_ITEMS_COLLECTION]\<rparr>)
      else (Inr (newId s (length (oplog s))),
            s\<lparr>oplog := oplog s @ [AddDoc LIST_ITEMS_COLLECTION],
              listItems_coll := listItems_coll s @ [d\<lparr>id' := newId s (length (oplog s)), addedAt := clock s\<rparr>],
              clock := Suc (clock s)\<rparr>))"
  by (simp add: addDoc_item_def request_def Let_def)

lemma itemsOfPair_oplog [simp]: "itemsOfPair l m (s\<lparr>oplog := ops\<rparr>) = itemsOfPair l m s"
  by (simp add: itemsOfPair_def)

lemma itemsOfList_oplog [simp]: "itemsOfList l (s\<lparr>oplog := ops\<rparr>) = itemsOfList l s"
  by (simp add: itemsOfList_def)

text \<open>What one call of \<^verbatim>\<open>addMessageToList\<close> does to the collection of items.\<close>

lemma addMessageToList_items:
  "listItems_coll (snd (addMessageToList userId l m s)) = listItems_coll s \<or>
   itemsOfPair l m s = [] \<and>
   (\<exists>i t. listItems_coll (snd (addMessageToList userId l m s)) =
      listItems_coll s @ [\<lparr>id' = i, listId = l, messageId = m, addedAt = t, completed = Some False\<rparr>])"
  by (simp add: addMessageToList_def Let_def split_beta addDoc_item_eq)

lemma addMessageToList_at_most_one:
  assumes "length (itemsOfPair l' m' s) \<le> 1"
  shows "length (itemsOfPair l' m' (snd (addMessageToList userId l m s))) \<le> 1"
proof -
  let ?s' = "snd (addMessageToList userId l m s)"
  from addMessageToList_items [of userId l m s]
  consider "listItems_coll ?s' = listItems_coll s"
    | i t where "itemsOfPair l m s = []"
        "listItems_coll ?s' =
           listItems_coll s @ [\<lparr>id' = i, listId = l, messageId = m, addedAt = t, completed = Some False\<rparr>]"
    by blast
  then show ?thesis
  proof cases
    case 1
    with assms show ?thesis by (simp add: itemsOfPair_def)
  next
    case 2
    show ?thesis
    proof (cases "l' = l \<and> m' = m")
      case True
      with 2 show ?thesis by (simp add: itemsOfPair_def)
    next
      case False
      with 2 assms show ?thesis by (auto simp add: itemsOfPair_def)
    qed
  qed
qed

lemma addMessageToList_first:
  assumes "truthy userId" "itemsOfPair l m s = []" "fst (addMessageToList userId l m s) = Inr ()"
  shows "itemsOfPair l m (snd (addMessageToList userId l m s)) =
     [\<lparr>id' = newId s (Suc (length (oplog s))), listId = l, messageId = m, addedAt = clock s,
       completed = Some False\<rparr>]"
  using assms
  by (simp add: addMessageToList_def Let_def split_beta addDoc_item_eq itemsOfPair_def
      split: if_splits)

lemma addMessageToList_present:
  assumes "itemsOfPair l m s \<noteq> []"
  shows "listItems_coll (snd (addMessageToList userId l m s)) = listItems_coll s"
  using assms by (simp add: addMessageToList_def Let_def split_beta)

text \<open>
  C4.  \<^verbatim>\<open>addMessageToList\<close> keeps membership a set.  A call, whatever its arguments and
  outcome, never takes a pair (listId, messageId) from at most one item to more than
  one.  With an identity present and a store holding no item for the pair, a first call
  that returns normally leaves exactly one item for the pair, created with
  \<^verbatim>\<open>completed = false\<close>; a second call in sequence leaves the collection of items as the
  first one left it, so exactly one item exists for the pair after both.
\<close>

theorem addMessageToList_idempotent:
  "(length (itemsOfPair l' m' s0) \<le> 1 \<longrightarrow>
      length (itemsOfPair l' m' (snd (addMessageToList u0 l0 m0 s0))) \<le> 1) \<and>
   (truthy userId \<and> itemsOfPair l m s = [] \<and>
    addMessageToList userId l m s = (Inr (), s1) \<and> addMessageToList userId l m s1 = (r2, s2) \<longrightarrow>
      itemsOfPair l m s1 =
        [\<lparr>id' = newId s (Suc (length (oplog s))), listId = l, messageId = m, addedAt = clock s,
          completed = Some False\<rparr>] \<and>
      listItems_coll s2 = listItems_coll s1 \<and>
      itemsOfPair l m s2 = itemsOfPair l m s1 \<and>
      length (itemsOfPair l m s2) = 1)"
proof (intro conjI impI)
  assume "length (itemsOfPair l' m' s0) \<le> 1"
  then show "length (itemsOfPair l' m' (snd (addMessageToList u0 l0 m0 s0))) \<le> 1"
    by (rule addMessageToList_at_most_one)
next
  assume a: "truthy userId \<and> itemsOfPair l m s = [] \<and>
    addMessageToList userId l m s = (Inr (), s1) \<and> addMessageToList userId l m s1 = (r2, s2)"
  then have one: "itemsOfPair l m s1 =
        [\<lparr>id' = newId s (Suc (length (oplog s))), listId = l, messageId = m, addedAt = clock s,
          completed = Some False\<rparr>]"
    using addMessageToList_first [of userId l m s] by simp
  then have "itemsOfPair l m s1 \<noteq> []" by simp
  then have same: "listItems_coll s2 = listItems_coll s1"
    using addMessageToList_present [of l m s1 userId] a by simp
  then have p: "itemsOfPair l m s2 = itemsOfPair l m s1"
    by (simp add: itemsOfPair_def)
  show "itemsOfPair l m s1 =
        [\<lparr>id' = newId s (Suc (length (oplog s))), listId = l, messageId = m, addedAt = clock s,
          completed = Some False\<rparr>]"
    by (rule one)
  show "listItems_coll s2 = listItems_coll s1" by (rule same)
  show "itemsOfPair l m s2 = itemsOfPair l m s1" by (rule p)
  show "length (itemsOfPair l m s2) = 1" using p one by simp
qed

lemma ex_store_colls [simp]:
  "listItems_coll ex_store = [ex_item ''i1'' ''l1'' ''m1'', ex_item ''i2'' ''l1'' ''m2'']"
  "lists_coll ex_store = [ex_list]"
  "duoboard_messages ex_store = [ex_msg ''m1'' 1 None, ex_msg ''m2'' 2 (Some ''m1'')]"
  "listItems_coll ex_store_failing = [ex_item ''i1'' ''l1'' ''m1'', ex_item ''i2'' ''l1'' ''m2'']"
  "lists_coll ex_store_failing = [ex_list]"
  "duoboard_messages ex_store_failing = [ex_msg ''m1'' 1 None, ex_msg ''m2'' 2 (Some ''m1'')]"
  by (simp_all add: ex_store_failing_def ex_store_def)

theorem addMessageToList_idempotent_witness:
  "length (itemsOfPair ''l1'' ''m1'' ex_store) \<le> 1 \<and>
   length (itemsOfPair ''l1'' ''m1'' (snd (addMessageToList (Some ''alice'') ''l1'' ''m1'' ex_store))) \<le> 1 \<and>
   truthy (Some ''alice'') \<and> itemsOfPair ''l1'' ''m3'' ex_store = [] \<and>
   fst (addMessageToList (Some ''alice'') ''l1'' ''m3'' ex_store) = Inr () \<and>
   length (itemsOfPair ''l1'' ''m3''
     (snd (addMessageToList (Some ''alice'') ''l1'' ''m3''
        (snd (addMessageToList (Some ''alice'') ''l1'' ''m3'' ex_store))))) = 1"
proof -
  let ?c1 = "addMessageToList (Some ''alice'') ''l1'' ''m3'' ex_store"
  let ?c2 = "addMessageToList (Some ''alice'') ''l1'' ''m3'' (snd ?c1)"
  have t: "truthy (Some ''alice'')" by (simp add: truthy_def)
  have e: "itemsOfPair ''l1'' ''m3'' ex_store = []"
    by (simp add: itemsOfPair_def ex_item_def)
  have o: "length (itemsOfPair ''l1'' ''m1'' ex_store) \<le> 1"
    by (simp add: itemsOfPair_def ex_item_def)
  have r: "fst ?c1 = Inr ()"
    by (simp add: addMessageToList_def Let_def split_beta addDoc_item_eq itemsOfPair_def
        ex_item_def truthy_def)
  then have c1: "?c1 = (Inr (), snd ?c1)"
    by (metis prod.collapse)
  have c2: "?c2 = (fst ?c2, snd ?c2)" by simp
  from t e o r c1 c2
    addMessageToList_idempotent [where userId = "Some ''alice''" and l = "''l1''" and m = "''m3''"
      and s = ex_store and ?s1.0 = "snd ?c1" and ?r2.0 = "fst ?c2" and ?s2.0 = "snd ?c2"
      and l' = "''l1''" and m' = "''m1''" and ?s0.0 = ex_store and ?u0.0 = "Some ''alice''"
      and ?l0.0 = "''l1''" and ?m0.0 = "''m1''"]
  show ?thesis by simp
qed

section \<open>Cascading deletion of a list\<close>

lemma deleteDoc_item_eq:
  "deleteDoc_item i s =
     (if rejects s (length (oplog s)) (DeleteDoc LIST_ITEMS_COLLECTION i)
      then (Inl Rejected, s\<lparr>oplog := oplog s @ [DeleteDoc LIST_ITEMS_COLLECTION i]\<rparr>)
      else (Inr (), s\<lparr>oplog := oplog s @ [DeleteDoc LIST_ITEMS_COLLECTION i],
                     listItems_coll := filter (\<lambda>d. id' d \<noteq> i) (listItems_coll s)\<rparr>))"
  by (simp add: deleteDoc_item_def request_def)

lemma deleteDoc_list_eq:
  "deleteDoc_list i s =
     (if rejects s (length (oplog s)) (DeleteDoc LISTS_COLLECTION i)
      then (Inl Rejected, s\<lparr>oplog := oplog s @ [DeleteDoc LISTS_COLLECTION i]\<rparr>)
      else (Inr (), s\<lparr>oplog := oplog s @ [DeleteDoc LISTS_COLLECTION i],
                     lists_coll := filter (\<lambda>d. id' d \<noteq> i) (lists_coll s)\<rparr>))"
  by (simp add: deleteDoc_list_def request_def)

lemma deleteDoc_items_frame:
  "oplog (snd (deleteDoc_items ids s)) = oplog s @ map (DeleteDoc LIST_ITEMS_COLLECTION) ids \<and>
   lists_coll (snd (deleteDoc_items ids s)) = lists_coll s \<and>
   rejects (snd (deleteDoc_items ids s)) = rejects s"
  by (induction ids arbitrary: s) (simp_all add: split_beta deleteDoc_item_eq)

lemma deleteDoc_items_accepted:
  "accepts s (map (DeleteDoc LIST_ITEMS_COLLECTION) ids) \<Longrightarrow>
     fst (deleteDoc_items ids s) = map (\<lambda>i. Inr ()) ids \<and>
     listItems_coll (snd (deleteDoc_items ids s)) =
       filter (\<lambda>d. id' d \<notin> set ids) (listItems_coll s)"
proof (induction ids arbitrary: s)
  case Nil
  show ?case by simp
next
  case (Cons i ids)
  let ?s1 = "s\<lparr>oplog := oplog s @ [DeleteDoc LIST_ITEMS_COLLECTION i],
                listItems_coll := filter (\<lambda>d. id' d \<noteq> i) (listItems_coll s)\<rparr>"
  from Cons.prems have ok: "\<not> rejects s (length (oplog s)) (DeleteDoc LIST_ITEMS_COLLECTION i)"
    and "accepts (s\<lparr>oplog := oplog s @ [DeleteDoc LIST_ITEMS_COLLECTION i]\<rparr>)
           (map (DeleteDoc LIST_ITEMS_COLLECTION) ids)"
    by (simp_all add: accepts_Cons)
  then have "accepts ?s1 (map (DeleteDoc LIST_ITEMS_COLLECTION) ids)"
    by (simp add: accepts_def)
  from Cons.IH [OF this] ok show ?case
    by (simp add: split_beta deleteDoc_item_eq conj_commute)
qed

lemma deleteDoc_items_rejected:
  "\<not> accepts s (map (DeleteDoc LIST_ITEMS_COLLECTION) ids) \<Longrightarrow>
     Inl Rejected \<in> set (fst (deleteDoc_items ids s))"
proof (induction ids arbitrary: s)
  case Nil
  then show ?case by simp
next
  case (Cons i ids)
  show ?case
  proof (cases "rejects s (length (oplog s)) (DeleteDoc LIST_ITEMS_COLLECTION i)")
    case True
    then show ?thesis by (simp add: split_beta deleteDoc_item_eq)
  next
    case False
    let ?s1 = "s\<lparr>oplog := oplog s @ [DeleteDoc LIST_ITEMS_COLLECTION i],
                  listItems_coll := filter (\<lambda>d. id' d \<noteq> i) (listItems_coll s)\<rparr>"
    from Cons.prems False have "\<not> accepts ?s1 (map (DeleteDoc LIST_ITEMS_COLLECTION) ids)"
      by (simp add: accepts_Cons accepts_def)
    from Cons.IH [OF this] False show ?thesis
      by (simp add: split_beta deleteDoc_item_eq)
  qed
qed

lemma deleteList_accepted:
  assumes "truthy userId" "accepts s (items_query l # item_deletes l s)"
  shows "oplog (snd (deleteList userId l s)) =
           oplog s @ items_query l # item_deletes l s @ [DeleteDoc LISTS_COLLECTION l]"
    and "itemsOfList l (snd (deleteList userId l s)) = []"
    and "fst (deleteList userId l s) = Inr () \<Longrightarrow>
           l \<notin> set (map id' (lists_coll (snd (deleteList userId l s))))"
    and "fst (deleteList userId l s) =
           (if rejects s (Suc (length (oplog s) + length (item_deletes l s)))
                 (DeleteDoc LISTS_COLLECTION l)
            then Inl (Error ''Failed to delete list'') else Inr ())"
proof -
  let ?s1 = "s\<lparr>oplog := oplog s @ [items_query l]\<rparr>"
  let ?ids = "map id' (itemsOfList l s)"
  let ?d = "deleteDoc_items ?ids ?s1"
  from assms(2) have q: "\<not> rejects s (length (oplog s)) (items_query l)"
    and a: "accepts ?s1 (map (DeleteDoc LIST_ITEMS_COLLECTION) ?ids)"
    by (simp_all add: accepts_Cons item_deletes_def)
  from deleteDoc_items_accepted [OF a]
  have r: "fst ?d = map (\<lambda>i. Inr ()) ?ids"
    and i: "listItems_coll (snd ?d) = filter (\<lambda>d. id' d \<notin> set ?ids) (listItems_coll s)"
    by simp_all
  have fr: "oplog (snd ?d) = oplog s @ items_query l # map (DeleteDoc LIST_ITEMS_COLLECTION) ?ids"
    "lists_coll (snd ?d) = lists_coll s" "rejects (snd ?d) = rejects s"
    using deleteDoc_items_frame [of ?ids ?s1] by simp_all
  have p: "promise_all (fst ?d) = Inr (map (\<lambda>i. ()) ?ids)"
    unfolding r by (rule promise_all_Inr)
  have none: "filter (\<lambda>d. listId d = l) (filter (\<lambda>d. id' d \<notin> set ?ids) (listItems_coll s)) = []"
    by (auto simp: filter_empty_conv itemsOfList_def)
  have dl: "deleteList userId l s =
      (case deleteDoc_list l (snd ?d) of
         (Inr u, s3) \<Rightarrow> (Inr (), s3)
       | (Inl e, s3) \<Rightarrow> (Inl (Error ''Failed to delete list''), s3))"
    using assms(1) q p
    by (simp add: deleteList_def Let_def split_beta items_query_def)
  show "oplog (snd (deleteList userId l s)) =
           oplog s @ items_query l # item_deletes l s @ [DeleteDoc LISTS_COLLECTION l]"
    by (simp add: dl deleteDoc_list_eq fr item_deletes_def)
  have "listItems_coll (snd (deleteList userId l s)) =
          filter (\<lambda>d. id' d \<notin> set ?ids) (listItems_coll s)"
    by (simp add: dl deleteDoc_list_eq fr i)
  then show "itemsOfList l (snd (deleteList userId l s)) = []"
    using none by (simp only: itemsOfList_def [of l "snd (deleteList userId l s)"])
  show "fst (deleteList userId l s) = Inr () \<Longrightarrow>
           l \<notin> set (map id' (lists_coll (snd (deleteList userId l s))))"
    by (auto simp add: dl deleteDoc_list_eq fr split: if_splits)
  show "fst (deleteList userId l s) =
           (if rejects s (Suc (length (oplog s) + length (item_deletes l s)))
                 (DeleteDoc LISTS_COLLECTION l)
            then Inl (Error ''Failed to delete list'') else Inr ())"
    by (simp add: dl deleteDoc_list_eq fr item_deletes_def)
qed

lemma deleteList_rejected:
  assumes "truthy userId" "\<not> accepts s (items_query l # item_deletes l s)"
  shows "fst (deleteList userId l s) = Inl (Error ''Failed to delete list'')"
    and "lists_coll (snd (deleteList userId l s)) = lists_coll s"
    and "DeleteDoc LISTS_COLLECTION l \<notin> set (oplog (snd (deleteList userId l s))) - set (oplog s)"
proof -
  let ?s1 = "s\<lparr>oplog := oplog s @ [items_query l]\<rparr>"
  let ?ids = "map id' (itemsOfList l s)"
  let ?d = "deleteDoc_items ?ids ?s1"
  have fr: "oplog (snd ?d) = oplog s @ items_query l # map (DeleteDoc LIST_ITEMS_COLLECTION) ?ids"
    "lists_coll (snd ?d) = lists_coll s"
    using deleteDoc_items_frame [of ?ids ?s1] by simp_all
  have ne: "LISTS_COLLECTION \<noteq> LIST_ITEMS_COLLECTION"
    by (simp add: LISTS_COLLECTION_def LIST_ITEMS_COLLECTION_def)
  have dl: "deleteList userId l s =
      (if rejects s (length (oplog s)) (items_query l)
       then (Inl (Error ''Failed to delete list''), ?s1)
       else (Inl (Error ''Failed to delete list''), snd ?d))"
  proof (cases "rejects s (length (oplog s)) (items_query l)")
    case True
    with assms(1) show ?thesis
      by (simp add: deleteList_def Let_def split_beta items_query_def)
  next
    case False
    with assms(2) have "\<not> accepts ?s1 (map (DeleteDoc LIST_ITEMS_COLLECTION) ?ids)"
      by (simp add: accepts_Cons item_deletes_def)
    then have "Inl Rejected \<in> set (fst ?d)"
      by (rule deleteDoc_items_rejected)
    then obtain e where "promise_all (fst ?d) = Inl e"
      using promise_all_Inl by blast
    with assms(1) False show ?thesis
      by (simp add: deleteList_def Let_def split_beta items_query_def)
  qed
  show "fst (deleteList userId l s) = Inl (Error ''Failed to delete list'')"
    by (simp add: dl)
  show "lists_coll (snd (deleteList userId l s)) = lists_coll s"
    by (simp add: dl fr)
  have q: "DeleteDoc LISTS_COLLECTION l \<noteq> items_query l"
    by (simp add: items_query_def)
  show "DeleteDoc LISTS_COLLECTION l \<notin> set (oplog (snd (deleteList userId l s))) - set (oplog s)"
    using ne q by (auto simp add: dl fr)
qed

text \<open>
  C5.  With an identity present, \<^verbatim>\<open>deleteList\<close> queries the items of the list and issues one
  deletion per item; the deletion of the list document is issued after all of them, and
  only when the query and every item deletion were accepted.  In that case no item of the
  list remains.  When the query or any item deletion is rejected, the operation raises
  \<^verbatim>\<open>'Failed to delete list'\<close>, the collection of lists is unchanged and no deletion of the
  list document is issued.  Hence whenever the list document has been removed, no item
  referencing the list is left.
\<close>

theorem deleteList_items_first:
  "truthy userId \<Longrightarrow> deleteList userId l s = (r, s') \<Longrightarrow>
     (accepts s (items_query l # item_deletes l s) \<longrightarrow>
        oplog s' = oplog s @ items_query l # item_deletes l s @ [DeleteDoc LISTS_COLLECTION l] \<and>
        itemsOfList l s' = [] \<and>
        (r = Inr () \<longrightarrow> l \<notin> set (map id' (lists_coll s')))) \<and>
     (\<not> accepts s (items_query l # item_deletes l s) \<longrightarrow>
        r = Inl (Error ''Failed to delete list'') \<and>
        lists_coll s' = lists_coll s \<and>
        DeleteDoc LISTS_COLLECTION l \<notin> set (oplog s') - set (oplog s)) \<and>
     (lists_coll s' \<noteq> lists_coll s \<longrightarrow> itemsOfList l s' = [])"
  using deleteList_accepted [of userId s l] deleteList_rejected [of userId s l]
  by (cases "accepts s (items_query l # item_deletes l s)") auto

lemma ex_store_delete_failing_fields [simp]:
  "oplog ex_store_delete_failing = []"
  "rejects ex_store_delete_failing k op = (op = DeleteDoc LIST_ITEMS_COLLECTION ''i2'')"
  "listItems_coll ex_store_delete_failing = [ex_item ''i1'' ''l1'' ''m1'', ex_item ''i2'' ''l1'' ''m2'']"
  "lists_coll ex_store_delete_failing = [ex_list]"
  by (simp_all add: ex_store_delete_failing_def ex_store_def)

theorem deleteList_items_first_witness:
  "truthy (Some ''alice'') \<and>
   accepts ex_store (items_query ''l1'' # item_deletes ''l1'' ex_store) \<and>
   oplog (snd (deleteList (Some ''alice'') ''l1'' ex_store)) =
     [items_query ''l1'', DeleteDoc LIST_ITEMS_COLLECTION ''i1'',
      DeleteDoc LIST_ITEMS_COLLECTION ''i2'', DeleteDoc LISTS_COLLECTION ''l1''] \<and>
   itemsOfList ''l1'' (snd (deleteList (Some ''alice'') ''l1'' ex_store)) = [] \<and>
   fst (deleteList (Some ''alice'') ''l1'' ex_store) = Inr () \<and>
   ''l1'' \<notin> set (map id' (lists_coll (snd (deleteList (Some ''alice'') ''l1'' ex_store)))) \<and>
   \<not> accepts ex_store_delete_failing (items_query ''l1'' # item_deletes ''l1'' ex_store_delete_failing) \<and>
   fst (deleteList (Some ''alice'') ''l1'' ex_store_delete_failing) =
     Inl (Error ''Failed to delete list'') \<and>
   lists_coll (snd (deleteList (Some ''alice'') ''l1'' ex_store_delete_failing)) = [ex_list]"
proof -
  have t: "truthy (Some ''alice'')" by (simp add: truthy_def)
  have d: "item_deletes ''l1'' ex_store =
             [DeleteDoc LIST_ITEMS_COLLECTION ''i1'', DeleteDoc LIST_ITEMS_COLLECTION ''i2'']"
    "item_deletes ''l1'' ex_store_delete_failing =
             [DeleteDoc LIST_ITEMS_COLLECTION ''i1'', DeleteDoc LIST_ITEMS_COLLECTION ''i2'']"
    by (simp_all add: item_deletes_def itemsOfList_def ex_item_def)
  have a: "accepts ex_store (items_query ''l1'' # item_deletes ''l1'' ex_store)"
    by (simp add: d accepts_def)
  have n: "\<not> accepts ex_store_delete_failing
             (items_query ''l1'' # item_deletes ''l1'' ex_store_delete_failing)"
    by (simp add: d accepts_def)
  have r: "fst (deleteList (Some ''alice'') ''l1'' ex_store) = Inr ()"
    using deleteList_accepted(4) [OF t a] by simp
  then have c: "deleteList (Some ''alice'') ''l1'' ex_store =
                  (Inr (), snd (deleteList (Some ''alice'') ''l1'' ex_store))"
    by (metis prod.collapse)
  show ?thesis
    using t a n d r c
      deleteList_items_first [where userId = "Some ''alice''" and l = "''l1''" and s = ex_store
        and r = "fst (deleteList (Some ''alice'') ''l1'' ex_store)"
        and s' = "snd (deleteList (Some ''alice'') ''l1'' ex_store)"]
      deleteList_items_first [where userId = "Some ''alice''" and l = "''l1''"
        and s = ex_store_delete_failing
        and r = "fst (deleteList (Some ''alice'') ''l1'' ex_store_delete_failing)"
        and s' = "snd (deleteList (Some ''alice'') ''l1'' ex_store_delete_failing)"]
    by simp
qed

section \<open>Toggling a like\<close>

lemma updateDoc_likes_eq:
  "updateDoc_likes i l s =
     (if \<not> rejects s (length (oplog s)) (UpdateDoc MESSAGES_COLLECTION i) \<and>
         i \<in> set (map id' (duoboard_messages s))
      then (Inr (), s\<lparr>oplog := oplog s @ [UpdateDoc MESSAGES_COLLECTION i],
                     duoboard_messages :=
                       map (\<lambda>m. if id' m = i then m\<lparr>likes := Some l\<rparr> else m) (duoboard_messages s)\<rparr>)
      else (Inl Rejected, s\<lparr>oplog := oplog s @ [UpdateDoc MESSAGES_COLLECTION i]\<rparr>))"
  by (simp add: updateDoc_likes_def request_def)

lemma getDoc_message_eq:
  "getDoc_message i s =
     (if rejects s (length (oplog s)) (GetDoc MESSAGES_COLLECTION i) then Inl Rejected
      else Inr (lookup_message i s),
      s\<lparr>oplog := oplog s @ [GetDoc MESSAGES_COLLECTION i]\<rparr>)"
  by (simp add: getDoc_message_def request_def lookup_message_def)

lemma find_Some_mem: "find P xs = Some x \<Longrightarrow> x \<in> set xs \<and> P x"
  by (induction xs) (auto split: if_splits)

lemma lookup_message_mem: "lookup_message i s = Some m \<Longrightarrow> i \<in> set (map id' (duoboard_messages s))"
  unfolding lookup_message_def by (auto dest!: find_Some_mem)

lemma find_map_update:
  "(\<And>m. id' (g m) = id' m) \<Longrightarrow>
   find (\<lambda>m. id' m = i) (map (\<lambda>m. if id' m = i then g m else m) ms) =
     map_option g (find (\<lambda>m. id' m = i) ms)"
  by (induction ms) simp_all

lemma toggleLike_eq:
  assumes "truthy userId"
  shows "toggleLike userId i (s, f) =
     (if rejects s (length (oplog s)) (GetDoc MESSAGES_COLLECTION i) \<or> lookup_message i s = None
      then (Inr (), s\<lparr>oplog := oplog s @ [GetDoc MESSAGES_COLLECTION i]\<rparr>, f)
      else if rejects s (Suc (length (oplog s))) (UpdateDoc MESSAGES_COLLECTION i)
      then (Inr (), s\<lparr>oplog := oplog s @ [GetDoc MESSAGES_COLLECTION i, UpdateDoc MESSAGES_COLLECTION i]\<rparr>, f)
      else (Inr (),
            s\<lparr>oplog := oplog s @ [GetDoc MESSAGES_COLLECTION i, UpdateDoc MESSAGES_COLLECTION i],
              duoboard_messages :=
                map (\<lambda>x. if id' x = i
                      then x\<lparr>likes := Some (flipLike (the userId) (currentLikes (the (lookup_message i s))))\<rparr>
                      else x) (duoboard_messages s)\<rparr>,
            f\<lparr>messages := liked (the userId) i (messages f) (the (lookup_message i s))\<rparr>))"
proof (cases "rejects s (length (oplog s)) (GetDoc MESSAGES_COLLECTION i)")
  case True
  with assms show ?thesis
    by (simp add: toggleLike_def getDoc_message_eq)
next
  case False
  show ?thesis
  proof (cases "lookup_message i s")
    case None
    with assms False show ?thesis
      by (simp add: toggleLike_def getDoc_message_eq)
  next
    case (Some m)
    then have "i \<in> set (map id' (duoboard_messages s))"
      by (rule lookup_message_mem)
    with assms False Some show ?thesis
      by (simp add: toggleLike_def getDoc_message_eq updateDoc_likes_eq Let_def liked_def
          currentLikes_def)
  qed
qed

text \<open>For an identity that names no property of \<^verbatim>\<open>Object.prototype\<close> the test
  \<^verbatim>\<open>newLikes[userId]\<close> reads the own entry only.\<close>

lemma likedBy_ordinary: "u \<notin> set Object_prototype \<Longrightarrow> likedBy l u = (l u = Some True)"
  by (auto simp: likedBy_def split: option.splits)

lemma likeSet_flip:
  "u \<notin> set Object_prototype \<Longrightarrow>
     likeSet (m\<lparr>likes := Some (flipLike u (currentLikes m))\<rparr>) =
       (if u \<in> likeSet m then likeSet m - {u} else insert u (likeSet m))"
  by (auto simp: likeSet_def flipLike_def currentLikes_def likedBy_ordinary split: if_splits)

lemma likeSet_flip_twice:
  "u \<notin> set Object_prototype \<Longrightarrow>
     likeSet (m\<lparr>likes := Some (flipLike u (flipLike u (currentLikes m)))\<rparr>) = likeSet m"
  by (auto simp: likeSet_def flipLike_def currentLikes_def likedBy_ordinary split: if_splits)

text \<open>For an identity that names a property of \<^verbatim>\<open>Object.prototype\<close> and has no own entry,
  the test finds the inherited property and \<^verbatim>\<open>delete\<close> removes nothing.\<close>

lemma flipLike_inherited:
  "u \<in> set Object_prototype \<Longrightarrow> l u = None \<Longrightarrow> flipLike u l = l"
  by (auto simp: flipLike_def likedBy_def)

lemma lookup_message_update:
  assumes "lookup_message i s = Some m"
  shows "lookup_message i
           (s\<lparr>oplog := ops,
              duoboard_messages := map (\<lambda>x. if id' x = i then x\<lparr>likes := l\<rparr> else x)
                                       (duoboard_messages s)\<rparr>) = Some (m\<lparr>likes := l\<rparr>)"
  using assms find_map_update [where g = "\<lambda>x. x\<lparr>likes := l\<rparr>" and i = i and ms = "duoboard_messages s"]
  by (simp add: lookup_message_def)

text \<open>
  With an identity present that names no property of \<^verbatim>\<open>Object.prototype\<close>, a message \<open>i\<close>
  present in the store and the store accepting the two reads and the two writes, one
  \<^verbatim>\<open>toggleLike\<close> changes only the \<^verbatim>\<open>likes\<close> field of the message and flips exactly the
  membership of the acting identity in its like set; a second \<^verbatim>\<open>toggleLike\<close> in sequence
  returns the like set to its original value.
\<close>

lemma toggleLike_twice_ordinary:
  assumes "truthy userId" and "lookup_message i s = Some m"
    and "accepts s [GetDoc MESSAGES_COLLECTION i, UpdateDoc MESSAGES_COLLECTION i,
                    GetDoc MESSAGES_COLLECTION i, UpdateDoc MESSAGES_COLLECTION i]"
    and "toggleLike userId i (s, f) = (r1, s1, f1)"
    and "toggleLike userId i (s1, f1) = (r2, s2, f2)"
    and ordinary: "the userId \<notin> set Object_prototype"
  shows "lookup_message i s1 = Some (m\<lparr>likes := Some (flipLike (the userId) (currentLikes m))\<rparr>) \<and>
         likeSet (the (lookup_message i s1)) =
           (if the userId \<in> likeSet m then likeSet m - {the userId}
            else insert (the userId) (likeSet m)) \<and>
         lookup_message i s2 =
           Some (m\<lparr>likes := Some (flipLike (the userId) (flipLike (the userId) (currentLikes m)))\<rparr>) \<and>
         likeSet (the (lookup_message i s2)) = likeSet m"
proof -
  let ?u = "the userId"
  let ?n = "length (oplog s)"
  let ?m1 = "m\<lparr>likes := Some (flipLike ?u (currentLikes m))\<rparr>"
  let ?m2 = "m\<lparr>likes := Some (flipLike ?u (flipLike ?u (currentLikes m)))\<rparr>"
  from assms(3) have a:
    "\<not> rejects s ?n (GetDoc MESSAGES_COLLECTION i)"
    "\<not> rejects s (Suc ?n) (UpdateDoc MESSAGES_COLLECTION i)"
    "\<not> rejects s (Suc (Suc ?n)) (GetDoc MESSAGES_COLLECTION i)"
    "\<not> rejects s (Suc (Suc (Suc ?n))) (UpdateDoc MESSAGES_COLLECTION i)"
    by (simp_all add: accepts_def)
  from assms(1,2,4) a(1,2)
  have s1: "s1 = s\<lparr>oplog := oplog s @ [GetDoc MESSAGES_COLLECTION i, UpdateDoc MESSAGES_COLLECTION i],
              duoboard_messages :=
                map (\<lambda>x. if id' x = i then x\<lparr>likes := Some (flipLike ?u (currentLikes m))\<rparr> else x)
                  (duoboard_messages s)\<rparr>"
    by (simp add: toggleLike_eq cong: if_cong)
  have l1: "lookup_message i s1 = Some ?m1"
    unfolding s1 using assms(2) by (rule lookup_message_update)
  have env: "rejects s1 = rejects s" "length (oplog s1) = Suc (Suc ?n)"
    by (simp_all add: s1)
  have c1: "currentLikes ?m1 = flipLike ?u (currentLikes m)"
    by (simp add: currentLikes_def)
  from assms(1,5) l1 a(3,4) env c1
  have s2: "s2 = s1\<lparr>oplog := oplog s1 @ [GetDoc MESSAGES_COLLECTION i, UpdateDoc MESSAGES_COLLECTION i],
              duoboard_messages :=
                map (\<lambda>x. if id' x = i
                      then x\<lparr>likes := Some (flipLike ?u (flipLike ?u (currentLikes m)))\<rparr> else x)
                  (duoboard_messages s1)\<rparr>"
    by (simp add: toggleLike_eq cong: if_cong)
  have "lookup_message i s2 =
          Some (?m1\<lparr>likes := Some (flipLike ?u (flipLike ?u (currentLikes m)))\<rparr>)"
    unfolding s2 using l1 by (rule lookup_message_update)
  then have l2: "lookup_message i s2 = Some ?m2" by simp
  from l1 l2 ordinary show ?thesis
    by (simp add: likeSet_flip likeSet_flip_twice)
qed

lemma ex_lookup_m2: "lookup_message ''m2'' ex_store = Some (ex_msg ''m2'' 2 (Some ''m1''))"
  "lookup_message ''m2'' ex_store_failing = Some (ex_msg ''m2'' 2 (Some ''m1''))"
  by (simp_all add: lookup_message_def ex_msg_def)

lemma likeSet_ex_msg [simp]: "likeSet (ex_msg i t r) = {}"
  by (simp add: likeSet_def ex_msg_def)

text \<open>
  C6.  The claim fails on the code for an acting identity that names a property of
  \<^verbatim>\<open>Object.prototype\<close>, such as \<^verbatim>\<open>constructor\<close>: with the message present, no own entry for the
  identity in its \<^verbatim>\<open>likes\<close> and both requests accepted, \<^verbatim>\<open>toggleLike\<close> reads the inherited
  property as an existing like, deletes nothing and writes the likes back as they were,
  so the identity is not a member of the like set after the toggle.
\<close>

theorem toggleLike_inherited_property:
  assumes "truthy userId" and "the userId \<in> set Object_prototype"
    and "lookup_message i s = Some m" and "currentLikes m (the userId) = None"
    and "accepts s [GetDoc MESSAGES_COLLECTION i, UpdateDoc MESSAGES_COLLECTION i]"
    and "toggleLike userId i (s, f) = (r1, s1, f1)"
  shows "oplog s1 = oplog s @ [GetDoc MESSAGES_COLLECTION i, UpdateDoc MESSAGES_COLLECTION i] \<and>
         lookup_message i s1 = Some (m\<lparr>likes := Some (currentLikes m)\<rparr>) \<and>
         likeSet (the (lookup_message i s1)) = likeSet m \<and>
         the userId \<notin> likeSet (the (lookup_message i s1))"
proof -
  let ?u = "the userId"
  let ?n = "length (oplog s)"
  from assms(5) have a:
    "\<not> rejects s ?n (GetDoc MESSAGES_COLLECTION i)"
    "\<not> rejects s (Suc ?n) (UpdateDoc MESSAGES_COLLECTION i)"
    by (simp_all add: accepts_def)
  have fl: "flipLike ?u (currentLikes m) = currentLikes m"
    using assms(2,4) by (rule flipLike_inherited)
  from assms(1,3,6) a fl
  have s1: "s1 = s\<lparr>oplog := oplog s @ [GetDoc MESSAGES_COLLECTION i, UpdateDoc MESSAGES_COLLECTION i],
              duoboard_messages :=
                map (\<lambda>x. if id' x = i then x\<lparr>likes := Some (currentLikes m)\<rparr> else x)
                  (duoboard_messages s)\<rparr>"
    by (simp add: toggleLike_eq cong: if_cong)
  have l1: "lookup_message i s1 = Some (m\<lparr>likes := Some (currentLikes m)\<rparr>)"
    unfolding s1 using assms(3) by (rule lookup_message_update)
  have ls: "likeSet (m\<lparr>likes := Some (currentLikes m)\<rparr>) = likeSet m"
    by (simp add: likeSet_def currentLikes_def)
  have "?u \<notin> likeSet m"
    using assms(4) by (simp add: likeSet_def currentLikes_def)
  with l1 ls show ?thesis by (simp add: s1)
qed

theorem toggleLike_inherited_property_witness:
  "truthy (Some ''constructor'') \<and> ''constructor'' \<in> set Object_prototype \<and>
   lookup_message ''m2'' ex_store = Some (ex_msg ''m2'' 2 (Some ''m1'')) \<and>
   currentLikes (ex_msg ''m2'' 2 (Some ''m1'')) ''constructor'' = None \<and>
   accepts ex_store [GetDoc MESSAGES_COLLECTION ''m2'', UpdateDoc MESSAGES_COLLECTION ''m2''] \<and>
   oplog (fst (snd (toggleLike (Some ''constructor'') ''m2'' (ex_store, ex_feed)))) =
     [GetDoc MESSAGES_COLLECTION ''m2'', UpdateDoc MESSAGES_COLLECTION ''m2''] \<and>
   likeSet (the (lookup_message ''m2''
     (fst (snd (toggleLike (Some ''constructor'') ''m2'' (ex_store, ex_feed)))))) = {} \<and>
   ''constructor'' \<notin> likeSet (the (lookup_message ''m2''
     (fst (snd (toggleLike (Some ''constructor'') ''m2'' (ex_store, ex_feed))))))"
proof -
  let ?c1 = "toggleLike (Some ''constructor'') ''m2'' (ex_store, ex_feed)"
  have t: "truthy (Some ''constructor'')" by (simp add: truthy_def)
  have p: "the (Some ''constructor'') \<in> set Object_prototype"
    by (simp add: Object_prototype_def)
  have n: "currentLikes (ex_msg ''m2'' 2 (Some ''m1'')) (the (Some ''constructor'')) = None"
    by (simp add: currentLikes_def ex_msg_def)
  have a: "accepts ex_store [GetDoc MESSAGES_COLLECTION ''m2'', UpdateDoc MESSAGES_COLLECTION ''m2'']"
    by (simp add: accepts_def)
  have c1: "?c1 = (fst ?c1, fst (snd ?c1), snd (snd ?c1))" by simp
  from toggleLike_inherited_property [OF t p ex_lookup_m2(1) n a c1] t p n a ex_lookup_m2(1)
  show ?thesis by (simp add: likeSet_def currentLikes_def ex_msg_def)
qed

lemma toggleLike_returns: "fst (toggleLike userId i (s, f)) = Inr ()"
  by (cases "truthy userId") (simp_all add: toggleLike_eq, simp add: toggleLike_def)

text \<open>
  C7 (as amended).  \<^verbatim>\<open>toggleLike\<close> never surfaces a failure: its promise resolves in every
  case, a rejected request being caught and logged only.  When the write is rejected the
  visible window and the stored messages are as before, the attempted requests apart;
  the window or the stored messages change only when the write was accepted.
\<close>

theorem toggleLike_write_rejected:
  "fst (toggleLike userId i (s, f)) = Inr () \<and>
   (truthy userId \<and> lookup_message i s = Some m \<and>
    \<not> rejects s (length (oplog s)) (GetDoc MESSAGES_COLLECTION i) \<and>
    rejects s (Suc (length (oplog s))) (UpdateDoc MESSAGES_COLLECTION i) \<longrightarrow>
      toggleLike userId i (s, f) =
        (Inr (), s\<lparr>oplog := oplog s @ [GetDoc MESSAGES_COLLECTION i, UpdateDoc MESSAGES_COLLECTION i]\<rparr>, f)) \<and>
   (snd (snd (toggleLike userId i (s, f))) \<noteq> f \<or>
    duoboard_messages (fst (snd (toggleLike userId i (s, f)))) \<noteq> duoboard_messages s \<longrightarrow>
      truthy userId \<and> \<not> rejects s (Suc (length (oplog s))) (UpdateDoc MESSAGES_COLLECTION i))"
proof (intro conjI impI)
  show "fst (toggleLike userId i (s, f)) = Inr ()"
    by (rule toggleLike_returns)
next
  assume "truthy userId \<and> lookup_message i s = Some m \<and>
    \<not> rejects s (length (oplog s)) (GetDoc MESSAGES_COLLECTION i) \<and>
    rejects s (Suc (length (oplog s))) (UpdateDoc MESSAGES_COLLECTION i)"
  then show "toggleLike userId i (s, f) =
        (Inr (), s\<lparr>oplog := oplog s @ [GetDoc MESSAGES_COLLECTION i, UpdateDoc MESSAGES_COLLECTION i]\<rparr>, f)"
    by (simp add: toggleLike_eq)
next
  assume c: "snd (snd (toggleLike userId i (s, f))) \<noteq> f \<or>
    duoboard_messages (fst (snd (toggleLike userId i (s, f)))) \<noteq> duoboard_messages s"
  show "truthy userId"
  proof (rule ccontr)
    assume "\<not> truthy userId"
    then have "toggleLike userId i (s, f) = (Inr (), s, f)"
      by (simp add: toggleLike_def)
    with c show False by simp
  qed
  then show "\<not> rejects s (Suc (length (oplog s))) (UpdateDoc MESSAGES_COLLECTION i)"
    using c by (auto simp add: toggleLike_eq split: if_splits)
qed

theorem toggleLike_write_rejected_counterexample:
  "\<not> rejects ex_store_failing 0 (GetDoc MESSAGES_COLLECTION ''m2'') \<and>
   rejects ex_store_failing 1 (UpdateDoc MESSAGES_COLLECTION ''m2'') \<and>
   lookup_message ''m2'' ex_store_failing = Some (ex_msg ''m2'' 2 (Some ''m1'')) \<and>
   oplog (fst (snd (toggleLike (Some ''bob'') ''m2'' (ex_store_failing, useMessages_init)))) =
     [GetDoc MESSAGES_COLLECTION ''m2'', UpdateDoc MESSAGES_COLLECTION ''m2''] \<and>
   fst (toggleLike (Some ''bob'') ''m2'' (ex_store_failing, useMessages_init)) = Inr ()"
proof -
  have t: "truthy (Some ''bob'')" by (simp add: truthy_def)
  show ?thesis
    by (simp add: toggleLike_eq [OF t] ex_lookup_m2)
qed


theorem toggleLike_write_rejected_witness:
  "truthy (Some ''bob'') \<and>
   lookup_message ''m2'' ex_store_failing = Some (ex_msg ''m2'' 2 (Some ''m1'')) \<and>
   \<not> rejects ex_store_failing (length (oplog ex_store_failing)) (GetDoc MESSAGES_COLLECTION ''m2'') \<and>
   rejects ex_store_failing (Suc (length (oplog ex_store_failing))) (UpdateDoc MESSAGES_COLLECTION ''m2'') \<and>
   toggleLike (Some ''bob'') ''m2'' (ex_store_failing, useMessages_init) =
     (Inr (), ex_store_failing\<lparr>oplog := oplog ex_store_failing @
                 [GetDoc MESSAGES_COLLECTION ''m2'', UpdateDoc MESSAGES_COLLECTION ''m2'']\<rparr>,
      useMessages_init) \<and>
   duoboard_messages (fst (snd (toggleLike (Some ''bob'') ''m2'' (ex_store, useMessages_init)))) \<noteq>
     duoboard_messages ex_store \<and>
   \<not> rejects ex_store (Suc (length (oplog ex_store))) (UpdateDoc MESSAGES_COLLECTION ''m2'')"
proof -
  have t: "truthy (Some ''bob'')" by (simp add: truthy_def)
  have h: "truthy (Some ''bob'') \<and>
    lookup_message ''m2'' ex_store_failing = Some (ex_msg ''m2'' 2 (Some ''m1'')) \<and>
    \<not> rejects ex_store_failing (length (oplog ex_store_failing)) (GetDoc MESSAGES_COLLECTION ''m2'') \<and>
    rejects ex_store_failing (Suc (length (oplog ex_store_failing))) (UpdateDoc MESSAGES_COLLECTION ''m2'')"
    by (simp add: truthy_def ex_lookup_m2)
  have "toggleLike (Some ''bob'') ''m2'' (ex_store_failing, useMessages_init) =
     (Inr (), ex_store_failing\<lparr>oplog := oplog ex_store_failing @
                 [GetDoc MESSAGES_COLLECTION ''m2'', UpdateDoc MESSAGES_COLLECTION ''m2'']\<rparr>,
      useMessages_init)"
    using toggleLike_write_rejected [where userId = "Some ''bob''" and i = "''m2''"
      and s = ex_store_failing and f = useMessages_init and m = "ex_msg ''m2'' 2 (Some ''m1'')"] h
    by blast
  moreover
  have c: "duoboard_messages (fst (snd (toggleLike (Some ''bob'') ''m2'' (ex_store, useMessages_init)))) \<noteq>
     duoboard_messages ex_store"
    by (simp add: toggleLike_eq [OF t] ex_lookup_m2 ex_msg_def flipLike_def currentLikes_def
        likedBy_def Object_prototype_def)
  moreover
  have "\<not> rejects ex_store (Suc (length (oplog ex_store))) (UpdateDoc MESSAGES_COLLECTION ''m2'')"
    using toggleLike_write_rejected [where userId = "Some ''bob''" and i = "''m2''"
      and s = ex_store and f = useMessages_init] c
    by blast
  ultimately show ?thesis using h by blast
qed

section \<open>Toggles aimed at a missing document\<close>

lemma getDoc_item_eq:
  "getDoc_item i s =
     (if rejects s (length (oplog s)) (GetDoc LIST_ITEMS_COLLECTION i) then Inl Rejected
      else Inr (lookup_item i s),
      s\<lparr>oplog := oplog s @ [GetDoc LIST_ITEMS_COLLECTION i]\<rparr>)"
  by (simp add: getDoc_item_def request_def lookup_item_def)


text \<open>
  C10.  A toggle aimed at a missing document writes nothing and raises nothing.
  \<^verbatim>\<open>toggleLike\<close> on a message id with no document returns normally, the store and the window
  being as before but for the logged point read.  \<^verbatim>\<open>toggleItemCompleted\<close> on an item id
  with no document, its point read being answered, returns normally with the store as
  before but for the logged point read.
\<close>


theorem missing_target_noop:
  "(lookup_message i s = None \<longrightarrow>
      toggleLike userId i (s, f) =
        (Inr (),
         (if truthy userId then s\<lparr>oplog := oplog s @ [GetDoc MESSAGES_COLLECTION i]\<rparr> else s), f)) \<and>
   (lookup_item j s = None \<and> \<not> rejects s (length (oplog s)) (GetDoc LIST_ITEMS_COLLECTION j) \<longrightarrow>
      toggleItemCompleted userId j s =
        (Inr (),
         (if truthy userId then s\<lparr>oplog := oplog s @ [GetDoc LIST_ITEMS_COLLECTION j]\<rparr> else s)))"
proof (cases "truthy userId")
  case True
  then show ?thesis
    by (simp add: toggleLike_eq toggleItemCompleted_def getDoc_item_eq)
next
  case False
  then show ?thesis
    by (simp add: toggleLike_def toggleItemCompleted_def)
qed


theorem missing_target_noop_witness:
  "lookup_message ''m9'' ex_store = None \<and>
   toggleLike (Some ''bob'') ''m9'' (ex_store, useMessages_init) =
     (Inr (), ex_store\<lparr>oplog := [GetDoc MESSAGES_COLLECTION ''m9'']\<rparr>, useMessages_init) \<and>
   lookup_item ''i9'' ex_store = None \<and>
   \<not> rejects ex_store (length (oplog ex_store)) (GetDoc LIST_ITEMS_COLLECTION ''i9'') \<and>
   toggleItemCompleted (Some ''bob'') ''i9'' ex_store =
     (Inr (), ex_store\<lparr>oplog := [GetDoc LIST_ITEMS_COLLECTION ''i9'']\<rparr>)"
proof -
  have t: "truthy (Some ''bob'')" by (simp add: truthy_def)
  have l: "lookup_message ''m9'' ex_store = None" "lookup_item ''i9'' ex_store = None"
    by (simp_all add: lookup_message_def lookup_item_def ex_msg_def ex_item_def)
  from t l
    missing_target_noop [where userId = "Some ''bob''" and i = "''m9''" and j = "''i9''"
      and s = ex_store and f = useMessages_init]
  show ?thesis by simp
qed


section \<open>Creating a list\<close>

lemma addDoc_list_eq:
  "addDoc_list d s =
     (if rejects s (length (oplog s)) (AddDoc LISTS_COLLECTION)
      then (Inl Rejected, s\<lparr>oplog := oplog s @ [AddDoc LISTS_COLLECTION]\<rparr>)
      else (Inr (newId s (length (oplog s))),
            s\<lparr>oplog := oplog s @ [AddDoc LISTS_COLLECTION],
              lists_coll := lists_coll s @ [d\<lparr>id' := newId s (length (oplog s)), createdAt := clock s\<rparr>],
              clock := Suc (clock s)\<rparr>))"
  by (simp add: addDoc_list_def request_def Let_def)


text \<open>
  C8 (as amended).  \<^verbatim>\<open>createList\<close> does not validate the name.  With an identity present
  it inserts, for every name, the empty one included, a list with the given name,
  visibility and kind, the given emoji or the empty string when the emoji is omitted or
  empty, the current identity as owner and the server timestamp, and returns the
  identifier the store assigned; a rejected insert raises \<^verbatim>\<open>'Failed to create list'\<close> and
  persists nothing.
\<close>


theorem createList_persists:
  "truthy userId \<Longrightarrow>
     createList userId n v ty e s =
       (if rejects s (length (oplog s)) (AddDoc LISTS_COLLECTION)
        then (Inl (Error ''Failed to create list''), s\<lparr>oplog := oplog s @ [AddDoc LISTS_COLLECTION]\<rparr>)
        else (Inr (Some (newId s (length (oplog s)))),
              s\<lparr>oplog := oplog s @ [AddDoc LISTS_COLLECTION],
                lists_coll := lists_coll s @
                  [\<lparr>id' = newId s (length (oplog s)), name = n, ownerId = the userId,
                    visibility = v, type = ty, createdAt = clock s,
                    emoji = (if truthy e then the e else [])\<rparr>],
                clock := Suc (clock s)\<rparr>))"
  by (simp add: createList_def addDoc_list_eq)


theorem createList_persists_counterexample:
  "fst (createList (Some ''alice'') [] Public Collection None ex_store) =
     Inr (Some (newId ex_store 0)) \<and>
   map name (lists_coll (snd (createList (Some ''alice'') [] Public Collection None ex_store))) =
     [''Groceries'', []] \<and>
   map emoji (lists_coll (snd (createList (Some ''alice'') [] Public Collection None ex_store))) =
     [[], []] \<and>
   oplog (snd (createList (Some ''alice'') [] Public Collection None ex_store)) =
     [AddDoc LISTS_COLLECTION]"
  by (simp add: createList_def addDoc_list_eq truthy_def ex_list_def)


theorem createList_persists_witness:
  "truthy (Some ''alice'') \<and>
   map name (lists_coll (snd (createList (Some ''alice'') ''Films'' Public Collection None ex_store))) =
     [''Groceries'', ''Films''] \<and>
   map emoji (lists_coll (snd (createList (Some ''alice'') ''Films'' Public Collection None ex_store))) =
     [[], []]"
proof -
  have t: "truthy (Some ''alice'')" by (simp add: truthy_def)
  from t createList_persists [where userId = "Some ''alice''" and n = "''Films''" and v = Public
      and ty = Collection and e = None and s = ex_store]
  show ?thesis by (simp add: ex_list_def truthy_def)
qed

end
